theory Spec2Isabelle
  imports Complex_Main "HOL-Library.Log_Nat" "HOL-Library.Char_ord" "HOL-Library.List_Lexorder"
    "HOL-Library.Product_Lexorder"
begin

section \<open>Double precision arithmetic\<close>

text \<open>
  pandas computes on float64 columns in IEEE 754 double precision. A finite double is
  modelled by the rational number it denotes. An arithmetic operation computes the exact
  result and rounds it to the nearest number with a significand of 53 bits, a tie going to
  the even significand. The range of the exponent is not modelled: there is no overflow
  and there are no subnormal numbers. (The scores lie between 0 and 100, a percentile
  rank is at least \<open>1 / N\<close> in a table of \<open>N\<close> rows, and the derived metrics are ratios of
  counts, so neither occurs in the arithmetic of the pipeline.)
\<close>

definition round_half_even :: "rat \<Rightarrow> int" where
  "round_half_even y =
     (let f = \<lfloor>y\<rfloor>; r = y - of_int f
      in if r < 1 / 2 then f else if r > 1 / 2 then f + 1 else if even f then f else f + 1)"

text \<open>The exponent \<open>e\<close> of a number \<open>x\<close> that is not zero: \<open>2 ^ e \<le> \<bar>x\<bar> < 2 ^ (e + 1)\<close>.\<close>

definition expo :: "rat \<Rightarrow> int" where
  "expo x =
     (let a = \<bar>x\<bar>
      in if a \<ge> 1 then bitlen \<lfloor>a\<rfloor> - 1 else - bitlen (\<lceil>1 / a\<rceil> - 1))"

text \<open>Rounding to the nearest double.\<close>

definition rnd :: "rat \<Rightarrow> rat" where
  "rnd x = (let q = 2 powi (expo x - 52) in of_int (round_half_even (x / q)) * q)"

text \<open>
  The four operations on doubles. A decimal literal of the source, such as \<^verbatim>\<open>0.30\<close>, denotes
  the nearest double, \<open>rnd 0.30\<close>.
\<close>

definition fadd :: "rat \<Rightarrow> rat \<Rightarrow> rat" where
  "fadd a b = rnd (a + b)"

definition fsub :: "rat \<Rightarrow> rat \<Rightarrow> rat" where
  "fsub a b = rnd (a - b)"

definition fmul :: "rat \<Rightarrow> rat \<Rightarrow> rat" where
  "fmul a b = rnd (a * b)"

definition fdiv :: "rat \<Rightarrow> rat \<Rightarrow> rat" where
  "fdiv a b = rnd (a / b)"

section \<open>Numeric cells of a pandas column\<close>

text \<open>
  A numeric column of a DataFrame holds float64 values. A value is a finite double, the
  missing marker NaN, or one of the two infinities that a division by zero produces.
\<close>

datatype cell = Num rat | NaN | PosInf | NegInf

text \<open>Comparison of a column with a scalar (\<^verbatim>\<open>series > c\<close>, \<^verbatim>\<open>series < c\<close>): false on NaN.\<close>

fun cell_gt :: "cell \<Rightarrow> rat \<Rightarrow> bool" where
  "cell_gt (Num a) c = (a > c)"
| "cell_gt NaN c = False"
| "cell_gt PosInf c = True"
| "cell_gt NegInf c = False"

fun cell_lt :: "cell \<Rightarrow> rat \<Rightarrow> bool" where
  "cell_lt (Num a) c = (a < c)"
| "cell_lt NaN c = False"
| "cell_lt PosInf c = False"
| "cell_lt NegInf c = True"

text \<open>
  The order in which \<^verbatim>\<open>Series.rank\<close> sorts a column when NaN is ranked at the bottom:
  minus infinity, the finite values in increasing order, plus infinity, and NaN after
  everything else. Equal values, and NaN with NaN, tie.
\<close>

fun sorts_before :: "cell \<Rightarrow> cell \<Rightarrow> bool" where
  "sorts_before (Num a) (Num b) = (a < b)"
| "sorts_before (Num a) NaN = True"
| "sorts_before (Num a) PosInf = True"
| "sorts_before (Num a) NegInf = False"
| "sorts_before NaN y = False"
| "sorts_before PosInf NaN = True"
| "sorts_before PosInf y = False"
| "sorts_before NegInf NegInf = False"
| "sorts_before NegInf y = True"

text \<open>
  Arithmetic of two columns, element by element. NaN propagates; a finite value divided
  by zero is an infinity (or NaN for zero by zero), as pandas divides without raising.
\<close>

fun cneg :: "cell \<Rightarrow> cell" where
  "cneg (Num a) = Num (- a)"
| "cneg NaN = NaN"
| "cneg PosInf = NegInf"
| "cneg NegInf = PosInf"

fun cadd :: "cell \<Rightarrow> cell \<Rightarrow> cell" where
  "cadd (Num a) (Num b) = Num (fadd a b)"
| "cadd NaN y = NaN"
| "cadd x NaN = NaN"
| "cadd PosInf NegInf = NaN"
| "cadd NegInf PosInf = NaN"
| "cadd PosInf y = PosInf"
| "cadd NegInf y = NegInf"
| "cadd (Num a) y = y"

definition csub :: "cell \<Rightarrow> cell \<Rightarrow> cell" where
  "csub x y = cadd x (cneg y)"

fun cmul :: "cell \<Rightarrow> cell \<Rightarrow> cell" where
  "cmul (Num a) (Num b) = Num (fmul a b)"
| "cmul NaN y = NaN"
| "cmul x NaN = NaN"
| "cmul (Num a) y = (if a = 0 then NaN else if a > 0 then y else cneg y)"
| "cmul x (Num b) = (if b = 0 then NaN else if b > 0 then x else cneg x)"
| "cmul PosInf y = y"
| "cmul NegInf y = cneg y"

fun cdiv :: "cell \<Rightarrow> cell \<Rightarrow> cell" where
  "cdiv (Num a) (Num b) =
     (if b = 0 then (if a = 0 then NaN else if a > 0 then PosInf else NegInf)
      else Num (fdiv a b))"
| "cdiv NaN y = NaN"
| "cdiv x NaN = NaN"
| "cdiv (Num a) y = Num 0"
| "cdiv x (Num b) = (if b \<ge> 0 then x else cneg x)"
| "cdiv x y = NaN"

text \<open>\<^verbatim>\<open>series.replace(old, new)\<close>, \<^verbatim>\<open>series.fillna(v)\<close> and \<^verbatim>\<open>series.clip(lower=c)\<close> on one cell.\<close>

definition replace_cell :: "rat \<Rightarrow> cell \<Rightarrow> cell \<Rightarrow> cell" where
  "replace_cell old new x = (if x = Num old then new else x)"

definition fillna :: "cell \<Rightarrow> cell \<Rightarrow> cell" where
  "fillna v x = (if x = NaN then v else x)"

fun clip_lower :: "rat \<Rightarrow> cell \<Rightarrow> cell" where
  "clip_lower c (Num a) = Num (max a c)"
| "clip_lower c NaN = NaN"
| "clip_lower c PosInf = PosInf"
| "clip_lower c NegInf = Num c"

definition is_inf :: "cell \<Rightarrow> bool" where
  "is_inf x = (x = PosInf \<or> x = NegInf)"

section \<open>The percentile normalizer\<close>

text \<open>
  \<^verbatim>\<open>Series.rank(method="average")\<close>: the rank of a value is the mean of the positions
  (counted from 1) that the values tied with it occupy in the sorted column, that is the
  number of values sorting before it plus half of one more than the number of values
  equal to it. The sorting order is a parameter: \<open>sorts_before\<close> for an ascending rank
  with NaN at the bottom, \<open>(>)\<close> for a descending rank. An average rank is an integer or
  an integer plus one half; in a table of less than \<open>2 ^ 26\<close> rows pandas computes it
  without rounding, and it is given here without rounding.
\<close>

definition average_rank :: "('a \<Rightarrow> 'a \<Rightarrow> bool) \<Rightarrow> 'a list \<Rightarrow> 'a \<Rightarrow> rat" where
  "average_rank prec xs x =
     of_nat (length (filter (\<lambda>y. prec y x) xs))
     + (of_nat (length (filter (\<lambda>y. y = x) xs)) + 1) / 2"

text \<open>
  \<^verbatim>\<open>series.rank(pct=True, na_option="bottom")\<close>: every rank is divided by the number of
  ranked rows, the NaN rows included.
\<close>

definition rank_pct_bottom :: "cell list \<Rightarrow> rat list" where
  "rank_pct_bottom xs =
     map (\<lambda>x. fdiv (average_rank sorts_before xs x) (of_nat (length xs))) xs"

text \<open>
  \<^verbatim>\<open>series.rank(pct=True)\<close> with the default \<^verbatim>\<open>na_option="keep"\<close>: a NaN row keeps NaN
  and is not counted; the other rows are ranked among themselves.
\<close>

definition rank_pct_keep :: "cell list \<Rightarrow> rat option list" where
  "rank_pct_keep xs =
     (let present = filter (\<lambda>y. y \<noteq> NaN) xs
      in map (\<lambda>x. if x = NaN then None
                   else Some (fdiv (average_rank sorts_before present x)
                                (of_nat (length present)))) xs)"

definition percentile_score :: "cell list \<Rightarrow> bool \<Rightarrow> rat list" where
  "percentile_score series ascending =
     (let ranks = rank_pct_bottom series;
          ranks = (if \<not> ascending then map (\<lambda>r. fsub 1 r) ranks else ranks)
      in map (\<lambda>r. fmul r 100) ranks)"

section \<open>Input tables and the merged tract table\<close>

text \<open>
  The rows of the three CSV files, with the columns that the scoring model reads. The
  key column GEOID is a string (\<^verbatim>\<open>dtype={"GEOID": str}\<close>); FIPS is an integer column.
\<close>

record acs_row =
  GEOID :: string
  total_population :: cell
  hh_total :: cell
  hh_no_internet :: cell
  hh_cellular_only :: cell
  hh_broadband_any :: cell
  hh_cable_fiber_dsl :: cell
  median_hh_income :: cell
  edu_bachelors :: cell
  edu_masters :: cell
  edu_professional :: cell
  edu_doctorate :: cell
  edu_total_25plus :: cell
  emp_unemployed :: cell
  emp_civilian_labor :: cell
  race_total :: cell
  race_nh_white :: cell
  comp_no_computer :: cell
  comp_total_hh :: cell

text \<open>The key column of the FCC table is also called GEOID in the file.\<close>

record fcc_row =
  GEOID_fcc :: string
  StateAbbr :: "string option"
  CountyName :: "string option"
  TotalBSLs :: cell
  UnservedBSLs :: cell
  UnderservedBSLs :: cell
  ServedBSLs :: cell
  UnservedBSLsFiber :: cell
  ServedBSLsFiber :: cell
  ServedBSLsCopper :: cell
  UniqueProviders :: cell
  UniqueProvidersFiber :: cell

record rucc_row =
  FIPS :: int
  RUCC_2023 :: cell
  Population_2020 :: cell
  Description :: "string option"

text \<open>A row of the merged table: the ACS columns, the FCC columns and the RUCC columns.\<close>

record tract =
  acs :: acs_row
  fcc :: fcc_row
  county_geoid :: string
  rucc_code :: cell
  county_pop_2020 :: cell
  rucc_description :: "string option"

text \<open>\<^verbatim>\<open>astype(str)\<close> of an integer and \<^verbatim>\<open>str.zfill(width)\<close>.\<close>

fun digits :: "nat \<Rightarrow> string" where
  "digits n =
     (if n < 10 then [char_of (48 + n)]
      else digits (n div 10) @ [char_of (48 + n mod 10)])"

definition str_of_int :: "int \<Rightarrow> string" where
  "str_of_int i = (if i < 0 then CHR ''-'' # digits (nat (- i)) else digits (nat i))"

definition zfill :: "nat \<Rightarrow> string \<Rightarrow> string" where
  "zfill width s =
     (case s of
        c # rest \<Rightarrow>
          if c = CHR ''+'' \<or> c = CHR ''-''
          then c # replicate (width - length s) CHR ''0'' @ rest
          else replicate (width - length s) CHR ''0'' @ s
      | [] \<Rightarrow> replicate width CHR ''0'')"

text \<open>
  \<^verbatim>\<open>acs.merge(fcc, on="GEOID", how="inner")\<close>: every pair of rows with the same key, in
  the order of the left table.
\<close>

definition inner_merge :: "acs_row list \<Rightarrow> fcc_row list \<Rightarrow> (acs_row \<times> fcc_row) list" where
  "inner_merge acs_t fcc_t =
     concat (map (\<lambda>a. map (\<lambda>f. (a, f)) (filter (\<lambda>f. GEOID_fcc f = GEOID a) fcc_t)) acs_t)"

text \<open>
  \<^verbatim>\<open>merged.merge(rucc, on="county_geoid", how="left")\<close>: a row without a match is kept,
  with missing RUCC columns.
\<close>

definition left_merge_rucc :: "(acs_row \<times> fcc_row) list \<Rightarrow> rucc_row list \<Rightarrow> tract list" where
  "left_merge_rucc merged rucc =
     concat (map (\<lambda>(a, f).
       (let cg = take 5 (GEOID a);
            ms = filter (\<lambda>r. zfill 5 (str_of_int (FIPS r)) = cg) rucc
        in if ms = []
           then [\<lparr>acs = a, fcc = f, county_geoid = cg, rucc_code = NaN,
                   county_pop_2020 = NaN, rucc_description = None\<rparr>]
           else map (\<lambda>r. \<lparr>acs = a, fcc = f, county_geoid = cg, rucc_code = RUCC_2023 r,
                   county_pop_2020 = Population_2020 r,
                   rucc_description = Description r\<rparr>) ms)) merged)"

definition retained :: "tract \<Rightarrow> bool" where
  "retained r =
     (cell_gt (total_population (acs r)) 0 \<and> cell_gt (hh_total (acs r)) 0
      \<and> cell_gt (TotalBSLs (fcc r)) 0)"

definition load_and_merge :: "acs_row list \<Rightarrow> fcc_row list \<Rightarrow> rucc_row list \<Rightarrow> tract list" where
  "load_and_merge acs_t fcc_t rucc =
     (let merged = inner_merge acs_t fcc_t;
          merged = left_merge_rucc merged rucc;
          merged = filter retained merged;
          merged = map (\<lambda>r. r\<lparr>acs := (acs r)\<lparr>median_hh_income :=
                     replace_cell (- 666666666) NaN (median_hh_income (acs r))\<rparr>\<rparr>) merged
      in merged)"

section \<open>Derived metrics\<close>

record tract_m = tract +
  pct_unserved :: cell
  pct_underserved :: cell
  pct_unserved_underserved :: cell
  pct_fiber_unserved :: cell
  pct_no_fiber :: cell
  pct_copper_served :: cell
  has_fiber :: int
  pct_no_internet :: cell
  pct_cellular_only :: cell
  pct_broadband :: cell
  pct_cable_fiber_dsl :: cell
  pct_served :: cell
  adoption_gap :: cell
  pct_bachelors_plus :: cell
  unemployment_rate :: cell
  pct_minority :: cell
  hh_per_bsl :: cell
  pct_no_computer :: cell

text \<open>\<^verbatim>\<open>a / b * 100\<close> on two columns.\<close>

definition pct :: "cell \<Rightarrow> cell \<Rightarrow> cell" where
  "pct a b = cmul (cdiv a b) (Num 100)"

text \<open>
  Every statement of \<^verbatim>\<open>compute_derived_metrics\<close> works element by element, so the
  function is given for one row and mapped over the table.
\<close>

definition derived_row :: "tract \<Rightarrow> tract_m" where
  "derived_row r =
     (let a = acs r; f = fcc r;
          v_pct_served = pct (ServedBSLs f) (TotalBSLs f);
          v_pct_broadband = pct (hh_broadband_any a) (hh_total a)
      in tract.extend r (tract_m.fields
          (pct (UnservedBSLs f) (TotalBSLs f))
          (pct (UnderservedBSLs f) (TotalBSLs f))
          (pct (cadd (UnservedBSLs f) (UnderservedBSLs f)) (TotalBSLs f))
          (pct (UnservedBSLsFiber f) (TotalBSLs f))
          (pct (csub (TotalBSLs f) (ServedBSLsFiber f)) (TotalBSLs f))
          (pct (ServedBSLsCopper f) (TotalBSLs f))
          (if cell_gt (UniqueProvidersFiber f) 0 then 1 else 0)
          (pct (hh_no_internet a) (hh_total a))
          (pct (hh_cellular_only a) (hh_total a))
          v_pct_broadband
          (pct (hh_cable_fiber_dsl a) (hh_total a))
          v_pct_served
          (csub v_pct_served v_pct_broadband)
          (pct (cadd (cadd (cadd (edu_bachelors a) (edu_masters a)) (edu_professional a))
                  (edu_doctorate a))
               (replace_cell 0 NaN (edu_total_25plus a)))
          (pct (emp_unemployed a) (replace_cell 0 NaN (emp_civilian_labor a)))
          (pct (csub (race_total a) (race_nh_white a)) (replace_cell 0 NaN (race_total a)))
          (cdiv (hh_total a) (TotalBSLs f))
          (pct (comp_no_computer a) (replace_cell 0 NaN (comp_total_hh a)))))"

definition compute_derived_metrics :: "tract list \<Rightarrow> tract_m list" where
  "compute_derived_metrics df = map derived_row df"

section \<open>Sub-score engines\<close>

text \<open>
  The weighted sums of the engines, in the order in which Python evaluates them:
  \<^verbatim>\<open>s1 * 0.30 + s2 * 0.25 + s3 * 0.20 + s4 * 0.15 + s5 * 0.10\<close> (Supply Gap and Demand
  Signal), \<^verbatim>\<open>s1 * 0.30 + s2 * 0.30 + s3 * 0.20 + s4 * 0.20\<close> (Funding Tailwind) and
  \<^verbatim>\<open>s1 * 0.40 + s2 * 0.35 + s3 * 0.25\<close> (Build Feasibility).
\<close>

definition weighted5 :: "rat \<Rightarrow> rat \<Rightarrow> rat \<Rightarrow> rat \<Rightarrow> rat \<Rightarrow> rat" where
  "weighted5 s1 s2 s3 s4 s5 =
     fadd (fadd (fadd (fadd (fmul s1 (rnd 0.30)) (fmul s2 (rnd 0.25))) (fmul s3 (rnd 0.20)))
       (fmul s4 (rnd 0.15))) (fmul s5 (rnd 0.10))"

definition weighted4 :: "rat \<Rightarrow> rat \<Rightarrow> rat \<Rightarrow> rat \<Rightarrow> rat" where
  "weighted4 s1 s2 s3 s4 =
     fadd (fadd (fadd (fmul s1 (rnd 0.30)) (fmul s2 (rnd 0.30))) (fmul s3 (rnd 0.20)))
       (fmul s4 (rnd 0.20))"

definition weighted3 :: "rat \<Rightarrow> rat \<Rightarrow> rat \<Rightarrow> rat" where
  "weighted3 s1 s2 s3 =
     fadd (fadd (fmul s1 (rnd 0.40)) (fmul s2 (rnd 0.35))) (fmul s3 (rnd 0.25))"

definition score_supply_gap :: "tract_m list \<Rightarrow> rat list" where
  "score_supply_gap df =
     (let s1 = percentile_score (map (\<lambda>r. UniqueProvidersFiber (fcc r)) df) False;
          s2 = percentile_score (map pct_no_fiber df) True;
          s3 = percentile_score (map pct_unserved_underserved df) True;
          s4 = percentile_score (map pct_copper_served df) True;
          s5 = percentile_score (map (\<lambda>r. UniqueProviders (fcc r)) df) False
      in map (\<lambda>i. weighted5 (s1 ! i) (s2 ! i) (s3 ! i) (s4 ! i) (s5 ! i)) [0..<length df])"

text \<open>\<^verbatim>\<open>series.median()\<close>: the median of the values that are not NaN, NaN when there is none.\<close>

fun insort_cell :: "cell \<Rightarrow> cell list \<Rightarrow> cell list" where
  "insort_cell x [] = [x]"
| "insort_cell x (y # ys) = (if sorts_before y x then y # insort_cell x ys else x # y # ys)"

definition sort_cells :: "cell list \<Rightarrow> cell list" where
  "sort_cells xs = foldr insort_cell xs []"

definition median_skipna :: "cell list \<Rightarrow> cell" where
  "median_skipna xs =
     (let vs = sort_cells (filter (\<lambda>x. x \<noteq> NaN) xs); n = length vs
      in if n = 0 then NaN
         else if odd n then vs ! (n div 2)
         else cdiv (cadd (vs ! (n div 2 - 1)) (vs ! (n div 2))) (Num 2))"

definition income_filled :: "tract_m list \<Rightarrow> cell list" where
  "income_filled df =
     (let income = map (\<lambda>r. median_hh_income (acs r)) df
      in map (fillna (median_skipna income)) income)"

definition low_income_penalty :: "cell list \<Rightarrow> rat list" where
  "low_income_penalty filled =
     map (\<lambda>x. if cell_lt x 30000 then rnd 0.5 else rnd 1.0) filled"

definition income_score :: "tract_m list \<Rightarrow> rat list" where
  "income_score df =
     (let filled = income_filled df;
          s1 = percentile_score filled True;
          penalty = low_income_penalty filled
      in map (\<lambda>i. fmul (s1 ! i) (penalty ! i)) [0..<length df])"

definition score_demand_signal :: "tract_m list \<Rightarrow> rat list" where
  "score_demand_signal df =
     (let s1 = income_score df;
          s2 = percentile_score (map (\<lambda>r. TotalBSLs (fcc r)) df) True;
          s3 = percentile_score (map pct_cellular_only df) True;
          s4 = percentile_score (map (\<lambda>r. clip_lower 0 (adoption_gap r)) df) True;
          s5 = percentile_score (map (\<lambda>r. total_population (acs r)) df) True
      in map (\<lambda>i. weighted5 (s1 ! i) (s2 ! i) (s3 ! i) (s4 ! i) (s5 ! i)) [0..<length df])"

definition score_funding_tailwind :: "tract_m list \<Rightarrow> rat list" where
  "score_funding_tailwind df =
     (let s1 = percentile_score (map (\<lambda>r. UnservedBSLs (fcc r)) df) True;
          s2 = percentile_score (map pct_unserved df) True;
          s3 = percentile_score (map (\<lambda>r. UnderservedBSLs (fcc r)) df) True;
          s4 = percentile_score (map pct_unserved_underserved df) True
      in map (\<lambda>i. weighted4 (s1 ! i) (s2 ! i) (s3 ! i) (s4 ! i)) [0..<length df])"

definition rucc_map :: "rat \<rightharpoonup> rat" where
  "rucc_map = map_of [(1, 20), (2, 35), (3, 55), (4, 85), (5, 75), (6, 90), (7, 70),
     (8, 60), (9, 40)]"

text \<open>
  \<^verbatim>\<open>series.map(d).fillna(v)\<close>: the dictionary's value for a key it has, and \<open>v\<close> for
  every other cell (NaN and the infinities are no keys of the dictionary).
\<close>

definition map_fillna :: "(rat \<rightharpoonup> rat) \<Rightarrow> rat \<Rightarrow> cell \<Rightarrow> rat" where
  "map_fillna d v x =
     (case x of Num c \<Rightarrow> (case d c of Some w \<Rightarrow> w | None \<Rightarrow> v) | _ \<Rightarrow> v)"

text \<open>A comparison with a NaN percentile is false.\<close>

definition pctile_lt :: "rat option \<Rightarrow> rat \<Rightarrow> bool" where
  "pctile_lt p c = (case p of None \<Rightarrow> False | Some v \<Rightarrow> v < c)"

definition bsl_density_score :: "rat option \<Rightarrow> rat" where
  "bsl_density_score bsl_pctile =
     (if pctile_lt bsl_pctile (rnd 0.1) then 20
      else if pctile_lt bsl_pctile (rnd 0.3) then 50
      else if pctile_lt bsl_pctile (rnd 0.7) then 85
      else if pctile_lt bsl_pctile (rnd 0.9) then 60
      else 30)"

definition score_build_feasibility :: "tract_m list \<Rightarrow> rat list" where
  "score_build_feasibility df =
     (let s1 = map (\<lambda>r. map_fillna rucc_map 50 (rucc_code r)) df;
          bsl_count = map (\<lambda>r. TotalBSLs (fcc r)) df;
          bsl_pctile = rank_pct_keep bsl_count;
          s2 = map bsl_density_score bsl_pctile;
          s3 = percentile_score (map (\<lambda>r. UniqueProviders (fcc r)) df) False
      in map (\<lambda>i. weighted3 (s1 ! i) (s2 ! i) (s3 ! i)) [0..<length df])"

section \<open>Composite score, rank and tier\<close>

record tract_s = tract_m +
  score_supply_gap_col :: rat
  score_demand_signal_col :: rat
  score_funding_tailwind_col :: rat
  score_build_feasibility_col :: rat
  opportunity_score :: rat
  opportunity_rank :: int
  opportunity_tier :: "string option"

text \<open>\<^verbatim>\<open>astype(int)\<close> of a float truncates towards zero.\<close>

definition astype_int :: "rat \<Rightarrow> int" where
  "astype_int q = (if q \<ge> 0 then \<lfloor>q\<rfloor> else \<lceil>q\<rceil>)"

text \<open>\<^verbatim>\<open>series.rank(ascending=False)\<close>: the average rank in decreasing order.\<close>

definition rank_descending :: "rat list \<Rightarrow> rat list" where
  "rank_descending xs = map (average_rank (\<lambda>y x. y > x) xs) xs"

text \<open>
  \<^verbatim>\<open>pd.cut(x, bins, labels)\<close> with the default \<^verbatim>\<open>right=True\<close>: the index of a value is the
  number of bin edges below it (\<^verbatim>\<open>searchsorted\<close> on the left); index 0 and index
  \<^verbatim>\<open>len(bins)\<close> are outside every bin and give a missing label.
\<close>

definition cut :: "rat list \<Rightarrow> string list \<Rightarrow> rat \<Rightarrow> string option" where
  "cut bins labels x =
     (let ids = length (filter (\<lambda>b. b < x) bins)
      in if ids = 0 \<or> ids = length bins then None else Some (labels ! (ids - 1)))"

definition tier_bins :: "rat list" where
  "tier_bins = [0, 30, 50, 65, 80, 100]"

definition tier_labels :: "string list" where
  "tier_labels = [''Low'', ''Below Average'', ''Moderate'', ''High'', ''Very High'']"

definition composite :: "rat \<Rightarrow> rat \<Rightarrow> rat \<Rightarrow> rat \<Rightarrow> rat" where
  "composite s d f b =
     fadd (fadd (fadd (fmul s (rnd 0.40)) (fmul d (rnd 0.30))) (fmul f (rnd 0.15)))
       (fmul b (rnd 0.15))"

definition build_composite_score :: "tract_m list \<Rightarrow> tract_s list" where
  "build_composite_score df =
     (let sg = score_supply_gap df;
          ds = score_demand_signal df;
          ft = score_funding_tailwind df;
          bf = score_build_feasibility df;
          os = map (\<lambda>i. composite (sg ! i) (ds ! i) (ft ! i) (bf ! i)) [0..<length df];
          rk = map astype_int (rank_descending os);
          tier = map (cut tier_bins tier_labels) os
      in map (\<lambda>i. tract_m.extend (df ! i)
                (tract_s.fields (sg ! i) (ds ! i) (ft ! i) (bf ! i) (os ! i) (rk ! i) (tier ! i)))
           [0..<length df])"

section \<open>County rollup and the pipeline\<close>

text \<open>A row of the county table; the first four columns are the group key.\<close>

record county_row =
  county_StateAbbr :: string
  county_CountyName :: string
  county_county_geoid :: string
  county_rucc_code :: cell
  avg_score :: rat
  max_score :: rat
  tract_count :: nat
  total_bsls :: cell
  total_unserved :: cell
  avg_income :: cell
  avg_no_fiber_pct :: cell

text \<open>
  \<^verbatim>\<open>df.groupby([...])\<close> with the default \<^verbatim>\<open>dropna=True\<close>: a row with a missing value
  in one of the key columns belongs to no group.
\<close>

definition group_key :: "tract_s \<Rightarrow> (string \<times> string \<times> string \<times> cell) option" where
  "group_key r =
     (case StateAbbr (fcc r) of
        None \<Rightarrow> None
      | Some s \<Rightarrow>
          (case CountyName (fcc r) of
             None \<Rightarrow> None
           | Some c \<Rightarrow>
               if rucc_code r = NaN then None else Some (s, c, county_geoid r, rucc_code r)))"

text \<open>The groups come in the order of their keys.\<close>

fun cell_order :: "cell \<Rightarrow> nat \<times> rat" where
  "cell_order NegInf = (0, 0)"
| "cell_order (Num a) = (1, a)"
| "cell_order PosInf = (2, 0)"
| "cell_order NaN = (3, 0)"

definition group_keys :: "tract_s list \<Rightarrow> (string \<times> string \<times> string \<times> cell) list" where
  "group_keys df =
     sort_key (\<lambda>(s, c, g, k). (s, c, g, cell_order k)) (remdups (List.map_filter group_key df))"

text \<open>
  The aggregations \<^verbatim>\<open>sum\<close> and \<^verbatim>\<open>mean\<close> skip NaN. The order in which pandas adds the
  values of a group, and the rounding of the mean of the scores, are not modelled; no
  statement below depends on an aggregated value.
\<close>

definition sum_skipna :: "cell list \<Rightarrow> cell" where
  "sum_skipna xs = foldl cadd (Num 0) (filter (\<lambda>x. x \<noteq> NaN) xs)"

definition mean_skipna :: "cell list \<Rightarrow> cell" where
  "mean_skipna xs =
     (let vs = filter (\<lambda>x. x \<noteq> NaN) xs
      in if vs = [] then NaN else cdiv (foldl cadd (Num 0) vs) (Num (of_nat (length vs))))"

definition agg_group :: "tract_s list \<Rightarrow> string \<times> string \<times> string \<times> cell \<Rightarrow> county_row" where
  "agg_group df key =
     (let members = filter (\<lambda>r. group_key r = Some key) df;
          scores = map opportunity_score members
      in case key of (s, c, g, k) \<Rightarrow>
         \<lparr>county_StateAbbr = s, county_CountyName = c, county_county_geoid = g,
          county_rucc_code = k,
          avg_score = sum_list scores / of_nat (length scores),
          max_score = fold max scores (hd scores),
          tract_count = length members,
          total_bsls = sum_skipna (map (\<lambda>r. TotalBSLs (fcc r)) members),
          total_unserved = sum_skipna (map (\<lambda>r. UnservedBSLs (fcc r)) members),
          avg_income = mean_skipna (map (\<lambda>r. median_hh_income (acs r)) members),
          avg_no_fiber_pct = mean_skipna (map pct_no_fiber members)\<rparr>)"

text \<open>
  The grouped table, sorted by decreasing \<^verbatim>\<open>avg_score\<close>. (The order that
  \<^verbatim>\<open>sort_values\<close> gives to rows with the same \<^verbatim>\<open>avg_score\<close> is not fixed by pandas; here
  they keep the order of their keys.)
\<close>

definition county_scores :: "tract_s list \<Rightarrow> county_row list" where
  "county_scores df = sort_key (\<lambda>g. - avg_score g) (map (agg_group df) (group_keys df))"

text \<open>
  The output directory holds the two files that \<^verbatim>\<open>main\<close> writes, each absent (\<open>None\<close>) or
  holding a table. \<^verbatim>\<open>main\<close> takes the three tables read from the input files, returns
  the scored table and the county table, and leaves both written. Printing is not
  modelled.
\<close>

record proc_dir =
  tract_scores_csv :: "tract_s list option"
  county_scores_csv :: "county_row list option"

definition main :: "acs_row list \<Rightarrow> fcc_row list \<Rightarrow> rucc_row list \<Rightarrow> proc_dir
    \<Rightarrow> (tract_s list \<times> county_row list) \<times> proc_dir" where
  "main acs_t fcc_t rucc dir =
     (let df = load_and_merge acs_t fcc_t rucc;
          df = compute_derived_metrics df;
          df = build_composite_score df;
          cs = county_scores df;
          dir = dir\<lparr>tract_scores_csv := Some df\<rparr>;
          dir = dir\<lparr>county_scores_csv := Some cs\<rparr>
      in ((df, cs), dir))"

section \<open>Raw counts\<close>

text \<open>
  The raw columns of the ACS and FCC tables are counts. A count is missing or a whole
  number from 0 to \<open>2 ^ 50\<close>. Sums and differences of four such numbers are computed
  without rounding, whether pandas holds the column as integers or as doubles, and their
  ratios are far from the overflow threshold of double precision.
\<close>

definition is_count :: "cell \<Rightarrow> bool" where
  "is_count x =
     (case x of Num a \<Rightarrow> 0 \<le> a \<and> a \<le> 2 ^ 50 \<and> a = of_int \<lfloor>a\<rfloor> | NaN \<Rightarrow> True | _ \<Rightarrow> False)"

text \<open>Every raw column that \<^verbatim>\<open>compute_derived_metrics\<close> reads holds a count.\<close>

definition raw_counts :: "tract \<Rightarrow> bool" where
  "raw_counts r =
     (let a = acs r; f = fcc r
      in list_all is_count
           [TotalBSLs f, UnservedBSLs f, UnderservedBSLs f, ServedBSLs f, UnservedBSLsFiber f,
            ServedBSLsFiber f, ServedBSLsCopper f, hh_total a, hh_no_internet a,
            hh_cellular_only a, hh_broadband_any a, hh_cable_fiber_dsl a, edu_bachelors a,
            edu_masters a, edu_professional a, edu_doctorate a, edu_total_25plus a,
            emp_unemployed a, emp_civilian_labor a, race_total a, race_nh_white a,
            comp_no_computer a, comp_total_hh a])"

text \<open>The derived columns of a row that hold a float.\<close>

definition derived_cells :: "tract_m \<Rightarrow> cell list" where
  "derived_cells r =
     [pct_unserved r, pct_underserved r, pct_unserved_underserved r, pct_fiber_unserved r,
      pct_no_fiber r, pct_copper_served r, pct_no_internet r, pct_cellular_only r,
      pct_broadband r, pct_cable_fiber_dsl r, pct_served r, adoption_gap r,
      pct_bachelors_plus r, unemployment_rate r, pct_minority r, hh_per_bsl r,
      pct_no_computer r]"

section \<open>Example tables\<close>

text \<open>
  Two tracts used to instantiate the theorems below. The first lies in a county that the
  RUCC table classifies; the county of the second has no row in the RUCC table, and its
  median household income is missing.
\<close>

definition example_acs :: "string \<Rightarrow> cell \<Rightarrow> acs_row" where
  "example_acs g income =
     \<lparr>GEOID = g, total_population = Num 4000, hh_total = Num 1500, hh_no_internet = Num 150,
      hh_cellular_only = Num 200, hh_broadband_any = Num 1200, hh_cable_fiber_dsl = Num 1000,
      median_hh_income = income, edu_bachelors = Num 500, edu_masters = Num 200,
      edu_professional = Num 50, edu_doctorate = Num 25, edu_total_25plus = Num 2800,
      emp_unemployed = Num 100, emp_civilian_labor = Num 2000, race_total = Num 4000,
      race_nh_white = Num 3000, comp_no_computer = Num 100, comp_total_hh = Num 1500\<rparr>"

definition example_fcc :: "string \<Rightarrow> fcc_row" where
  "example_fcc g =
     \<lparr>GEOID_fcc = g, StateAbbr = Some ''VA'', CountyName = Some ''Accomack'',
      TotalBSLs = Num 2000, UnservedBSLs = Num 300, UnderservedBSLs = Num 200,
      ServedBSLs = Num 1500, UnservedBSLsFiber = Num 1200, ServedBSLsFiber = Num 800,
      ServedBSLsCopper = Num 600, UniqueProviders = Num 4, UniqueProvidersFiber = Num 1\<rparr>"

definition example_rucc :: "rucc_row list" where
  "example_rucc =
     [\<lparr>FIPS = 51001, RUCC_2023 = Num 6, Population_2020 = Num 33413,
       Description = Some ''Nonmetro''\<rparr>]"

definition example_acs_table :: "acs_row list" where
  "example_acs_table = [example_acs ''51001090100'' (Num 25000), example_acs ''51999000100'' NaN]"

definition example_fcc_table :: "fcc_row list" where
  "example_fcc_table = [example_fcc ''51001090100'', example_fcc ''51999000100'']"

definition example_tracts :: "tract list" where
  "example_tracts =
     [\<lparr>acs = example_acs ''51001090100'' (Num 25000), fcc = example_fcc ''51001090100'',
       county_geoid = ''51001'', rucc_code = Num 6, county_pop_2020 = Num 33413,
       rucc_description = Some ''Nonmetro''\<rparr>,
      \<lparr>acs = example_acs ''51999000100'' NaN, fcc = example_fcc ''51999000100'',
       county_geoid = ''51999'', rucc_code = NaN, county_pop_2020 = NaN,
       rucc_description = None\<rparr>]"

definition example_df :: "tract_m list" where
  "example_df = compute_derived_metrics example_tracts"

text \<open>
  A retained tract in which the four guarded denominators are zero, and an output
  directory in which no file has been written.
\<close>

definition example_zero_denominators :: tract where
  "example_zero_denominators =
     \<lparr>acs = (example_acs ''51001090100'' (Num 25000))
         \<lparr>edu_total_25plus := Num 0, emp_civilian_labor := Num 0, race_total := Num 0,
          comp_total_hh := Num 0\<rparr>,
      fcc = example_fcc ''51001090100'', county_geoid = ''51001'', rucc_code = Num 6,
      county_pop_2020 = Num 33413, rucc_description = Some ''Nonmetro''\<rparr>"

definition empty_dir :: proc_dir where
  "empty_dir = \<lparr>tract_scores_csv = None, county_scores_csv = None\<rparr>"


section \<open>Properties of the rounding\<close>

lemma rhe_err: "\<bar>of_int (round_half_even y) - y\<bar> \<le> 1 / 2"
  unfolding round_half_even_def Let_def by (auto simp: abs_if) linarith+

lemma rhe_int [simp]: "round_half_even (of_int n) = n"
  by (simp add: round_half_even_def)

lemma rhe_numeral [simp]: "round_half_even (numeral n) = numeral n"
  using rhe_int [of "numeral n"] by simp

lemma rhe_mono: "y \<le> z \<Longrightarrow> round_half_even y \<le> round_half_even z"
proof -
  assume yz: "y \<le> z"
  have f: "\<lfloor>y\<rfloor> \<le> \<lfloor>z\<rfloor>" by (rule floor_mono [OF yz])
  show ?thesis
  proof (cases "\<lfloor>y\<rfloor> = \<lfloor>z\<rfloor>")
    case True
    with yz show ?thesis unfolding round_half_even_def Let_def by auto
  next
    case False
    with f have "\<lfloor>y\<rfloor> + 1 \<le> \<lfloor>z\<rfloor>" by simp
    moreover have "round_half_even y \<le> \<lfloor>y\<rfloor> + 1" unfolding round_half_even_def Let_def by auto
    moreover have "\<lfloor>z\<rfloor> \<le> round_half_even z" unfolding round_half_even_def Let_def by auto
    ultimately show ?thesis by linarith
  qed
qed

lemma pow2_int: "0 \<le> n \<Longrightarrow> (2::rat) powi n = of_int (2 ^ nat n)"
  by (simp add: power_int_def)

lemma expo_bounds:
  assumes "x \<noteq> 0"
  shows "2 powi expo x \<le> \<bar>x\<bar>" and "\<bar>x\<bar> < 2 powi (expo x + 1)"
proof -
  let ?a = "\<bar>x\<bar>"
  have a: "0 < ?a" using assms by simp
  have "2 powi expo x \<le> ?a \<and> ?a < 2 powi (expo x + 1)"
  proof (cases "?a \<ge> 1")
    case True
    let ?n = "\<lfloor>?a\<rfloor>"
    have n: "0 < ?n" using True by linarith
    have e: "expo x = bitlen ?n - 1" using True by (simp add: expo_def Let_def)
    have b1: "1 \<le> bitlen ?n" using n bitlen_eq_zero_iff [of ?n] bitlen_nonneg [of ?n] by linarith
    from bitlen_bounds [OF n] have lo: "2 ^ nat (bitlen ?n - 1) \<le> ?n" and hi: "?n < 2 ^ nat (bitlen ?n)"
      by simp_all
    have "(of_int (2 ^ nat (bitlen ?n - 1)) :: rat) \<le> of_int ?n" using lo by (simp only: of_int_le_iff)
    also have "\<dots> \<le> ?a" by simp
    finally have l: "2 powi (bitlen ?n - 1) \<le> ?a" using b1 by (simp add: pow2_int)
    have "?a < of_int (2 ^ nat (bitlen ?n))" using hi by (simp only: floor_less_iff)
    then have h: "?a < 2 powi (bitlen ?n)" using b1 by (simp add: pow2_int)
    show ?thesis unfolding e using l h by simp
  next
    case False
    then have lt: "?a < 1" by simp
    let ?y = "1 / ?a"
    let ?m = "\<lceil>?y\<rceil> - 1"
    have y: "1 < ?y" using a lt by simp
    have m: "0 < ?m" using y by linarith
    have e: "expo x = - bitlen ?m" using False by (simp add: expo_def Let_def)
    have b1: "1 \<le> bitlen ?m" using m bitlen_eq_zero_iff [of ?m] bitlen_nonneg [of ?m] by linarith
    from bitlen_bounds [OF m] have lo: "2 ^ nat (bitlen ?m - 1) \<le> ?m" and hi: "?m < 2 ^ nat (bitlen ?m)"
      by simp_all
    have "?m + 1 \<le> 2 ^ nat (bitlen ?m)" using hi by simp
    then have "\<lceil>?y\<rceil> \<le> 2 ^ nat (bitlen ?m)" by simp
    then have "?y \<le> of_int (2 ^ nat (bitlen ?m))" by (simp only: ceiling_le_iff)
    then have yh: "?y \<le> 2 powi (bitlen ?m)" using b1 by (simp add: pow2_int)
    have "2 ^ nat (bitlen ?m - 1) < \<lceil>?y\<rceil>" using lo by simp
    then have "of_int (2 ^ nat (bitlen ?m - 1)) < ?y" by (simp only: less_ceiling_iff)
    then have yl: "2 powi (bitlen ?m - 1) < ?y" using b1 by (simp add: pow2_int)
    have p: "(0::rat) < 2 powi k" for k by simp
    have "2 powi (- bitlen ?m) \<le> ?a"
    proof -
      have "0 < ?y" using y by linarith
      from le_imp_inverse_le [OF yh this]
      have "inverse (2 powi (bitlen ?m)) \<le> inverse ?y" .
      then show ?thesis by (simp add: power_int_minus inverse_eq_divide)
    qed
    moreover have "?a < 2 powi (- bitlen ?m + 1)"
    proof -
      from less_imp_inverse_less [OF yl p]
      have "inverse ?y < inverse (2 powi (bitlen ?m - 1))" .
      moreover have "inverse (2 powi (bitlen ?m - 1)) = (2::rat) powi (- bitlen ?m + 1)"
        by (simp add: power_int_minus [symmetric])
      ultimately show ?thesis by (simp add: inverse_eq_divide)
    qed
    ultimately show ?thesis unfolding e by simp
  qed
  then show "2 powi expo x \<le> \<bar>x\<bar>" and "\<bar>x\<bar> < 2 powi (expo x + 1)" by simp_all
qed


lemma pow2_strict_mono: "i < j \<Longrightarrow> (2::rat) powi i < 2 powi j"
  by (rule power_int_strict_increasing) simp_all

lemma pow2_mono: "i \<le> j \<Longrightarrow> (2::rat) powi i \<le> 2 powi j"
  by (rule power_int_increasing) simp_all

lemma expo_eq:
  assumes "2 powi e \<le> \<bar>x\<bar>" and "\<bar>x\<bar> < 2 powi (e + 1)"
  shows "expo x = e"
proof -
  have x: "x \<noteq> 0"
  proof
    assume "x = 0"
    with assms(1) have "(2::rat) powi e \<le> 0" by simp
    moreover have "(0::rat) < 2 powi e" by simp
    ultimately show False by linarith
  qed
  note b = expo_bounds [OF x]
  have "\<not> expo x < e"
  proof
    assume "expo x < e"
    then have "expo x + 1 \<le> e" by simp
    from pow2_mono [OF this] b(2) assms(1) show False by linarith
  qed
  moreover have "\<not> e < expo x"
  proof
    assume "e < expo x"
    then have "e + 1 \<le> expo x" by simp
    from pow2_mono [OF this] b(1) assms(2) show False by linarith
  qed
  ultimately show ?thesis by simp
qed

lemma rnd_0 [simp]: "rnd 0 = 0"
  by (simp add: rnd_def round_half_even_def)

lemma rnd_err: "\<bar>rnd x - x\<bar> \<le> 2 powi (expo x - 53)"
proof -
  let ?q = "(2::rat) powi (expo x - 52)"
  have q: "0 < ?q" by simp
  have "\<bar>of_int (round_half_even (x / ?q)) - x / ?q\<bar> \<le> 1 / 2" by (rule rhe_err)
  then have "\<bar>of_int (round_half_even (x / ?q)) - x / ?q\<bar> * ?q \<le> 1 / 2 * ?q"
    using q by (intro mult_right_mono) simp_all
  moreover have "\<bar>of_int (round_half_even (x / ?q)) - x / ?q\<bar> * ?q = \<bar>rnd x - x\<bar>"
  proof -
    have "\<bar>of_int (round_half_even (x / ?q)) - x / ?q\<bar> * ?q
        = \<bar>(of_int (round_half_even (x / ?q)) - x / ?q) * ?q\<bar>"
      using q by (simp add: abs_mult)
    also have "(of_int (round_half_even (x / ?q)) - x / ?q) * ?q = rnd x - x"
      using q by (simp add: rnd_def Let_def left_diff_distrib)
    finally show ?thesis .
  qed
  moreover have "1 / 2 * ?q = 2 powi (expo x - 53)"
  proof -
    have "(2::rat) powi (expo x - 52) = 2 powi (expo x - 53 + 1)" by simp
    also have "\<dots> = 2 powi (expo x - 53) * 2" by (subst power_int_add) simp_all
    finally show ?thesis by simp
  qed
  ultimately show ?thesis by simp
qed


lemma pow2_split: "(2::rat) powi (e + 1) = 2 powi (e - 52) * 2 ^ 53"
proof -
  have "(2::rat) powi (e + 1) = 2 powi (e - 52 + 53)"
    by (rule arg_cong [where f = "\<lambda>k. 2 powi k"]) simp
  also have "\<dots> = 2 powi (e - 52) * 2 powi 53" by (subst power_int_add) simp_all
  finally show ?thesis by simp
qed

lemma pow2_split': "(2::rat) powi e = 2 powi (e - 52) * 2 ^ 52"
proof -
  have "(2::rat) powi e = 2 powi (e - 52 + 52)"
    by (rule arg_cong [where f = "\<lambda>k. 2 powi k"]) simp
  also have "\<dots> = 2 powi (e - 52) * 2 powi 52" by (subst power_int_add) simp_all
  finally show ?thesis by simp
qed

lemma rnd_binade:
  assumes "0 < x"
  shows "2 powi expo x \<le> rnd x" and "rnd x \<le> 2 powi (expo x + 1)"
proof -
  let ?q = "(2::rat) powi (expo x - 52)"
  have q: "0 < ?q" by simp
  have x: "x \<noteq> 0" "\<bar>x\<bar> = x" using assms by simp_all
  note b = expo_bounds [OF x(1), unfolded x(2)]
  have "2 ^ 52 \<le> x / ?q"
    using b(1) q unfolding pow2_split' [of "expo x"] by (simp add: field_simps)
  then have "of_int (2 ^ 52) \<le> x / ?q" by simp
  from rhe_mono [OF this] have "2 ^ 52 \<le> round_half_even (x / ?q)" by simp
  then have "(of_int (2 ^ 52) :: rat) \<le> of_int (round_half_even (x / ?q))"
    by (simp only: of_int_le_iff)
  then have "of_int (2 ^ 52) * ?q \<le> of_int (round_half_even (x / ?q)) * ?q"
    using q by (intro mult_right_mono) simp_all
  then show "2 powi expo x \<le> rnd x"
    unfolding rnd_def Let_def pow2_split' [of "expo x"] by (simp add: mult.commute)
  have "x / ?q \<le> 2 ^ 53"
    using b(2) q unfolding pow2_split [of "expo x"] by (simp add: field_simps)
  then have "x / ?q \<le> of_int (2 ^ 53)" by simp
  from rhe_mono [OF this] have "round_half_even (x / ?q) \<le> 2 ^ 53" by simp
  then have "(of_int (round_half_even (x / ?q)) :: rat) \<le> of_int (2 ^ 53)"
    by (simp only: of_int_le_iff)
  then have "of_int (round_half_even (x / ?q)) * ?q \<le> of_int (2 ^ 53) * ?q"
    using q by (intro mult_right_mono) simp_all
  then show "rnd x \<le> 2 powi (expo x + 1)"
    unfolding rnd_def Let_def pow2_split [of "expo x"] by (simp add: mult.commute)
qed

lemma rnd_nonneg: "0 \<le> x \<Longrightarrow> 0 \<le> rnd x"
proof (cases "x = 0")
  case True
  then show ?thesis by simp
next
  case False
  assume "0 \<le> x"
  with False have "0 < x" by simp
  from rnd_binade(1) [OF this] have "2 powi expo x \<le> rnd x" .
  moreover have "(0::rat) < 2 powi expo x" by simp
  ultimately show ?thesis by linarith
qed

lemma expo_mono:
  assumes "0 < x" and "x \<le> y"
  shows "expo x \<le> expo y"
proof (rule ccontr)
  assume "\<not> expo x \<le> expo y"
  then have "expo y + 1 \<le> expo x" by simp
  from pow2_mono [OF this] have "(2::rat) powi (expo y + 1) \<le> 2 powi expo x" .
  moreover have "2 powi expo x \<le> \<bar>x\<bar>" using expo_bounds(1) [of x] assms by simp
  moreover have "\<bar>y\<bar> < 2 powi (expo y + 1)" using expo_bounds(2) [of y] assms by simp
  ultimately show False using assms by simp
qed

lemma rnd_mono:
  assumes "0 \<le> x" and "x \<le> y"
  shows "rnd x \<le> rnd y"
proof (cases "x = 0")
  case True
  then show ?thesis using rnd_nonneg [of y] assms by simp
next
  case False
  then have x: "0 < x" using assms by simp
  then have y: "0 < y" using assms by simp
  have le: "expo x \<le> expo y" by (rule expo_mono [OF x assms(2)])
  show ?thesis
  proof (cases "expo x = expo y")
    case True
    let ?q = "(2::rat) powi (expo y - 52)"
    have q: "0 < ?q" by simp
    have "x / ?q \<le> y / ?q" using assms(2) q by (simp add: divide_right_mono)
    from rhe_mono [OF this]
    have "(of_int (round_half_even (x / ?q)) :: rat) \<le> of_int (round_half_even (y / ?q))"
      by (simp only: of_int_le_iff)
    then have "of_int (round_half_even (x / ?q)) * ?q \<le> of_int (round_half_even (y / ?q)) * ?q"
      using q by (intro mult_right_mono) simp_all
    then show ?thesis unfolding rnd_def Let_def True .
  next
    case False
    with le have "expo x + 1 \<le> expo y" by simp
    from pow2_mono [OF this] rnd_binade(2) [OF x] rnd_binade(1) [OF y]
    show ?thesis by linarith
  qed
qed

lemma rnd_err_le:
  assumes "\<bar>x\<bar> \<le> 2 powi k"
  shows "\<bar>rnd x - x\<bar> \<le> 2 powi (k - 53)"
proof (cases "x = 0")
  case True
  then show ?thesis by simp
next
  case False
  have "\<not> k < expo x"
  proof
    assume "k < expo x"
    then have "k + 1 \<le> expo x" by simp
    from pow2_mono [OF this] pow2_strict_mono [of k "k + 1"] expo_bounds(1) [OF False] assms
    show False by simp
  qed
  then have "expo x - 53 \<le> k - 53" by simp
  from pow2_mono [OF this] rnd_err [of x] show ?thesis by linarith
qed

lemma rnd_eval:
  assumes "2 powi e \<le> \<bar>x\<bar>" and "\<bar>x\<bar> < 2 powi (e + 1)"
  shows "rnd x = of_int (round_half_even (x / 2 powi (e - 52))) * 2 powi (e - 52)"
  unfolding rnd_def Let_def expo_eq [OF assms] ..

lemma floor_rat_divide_numeral:
  "\<lfloor>numeral a / numeral b :: rat\<rfloor> = numeral a div numeral b"
  using floor_divide_of_int_eq [of "numeral a" "numeral b", where ?'a = rat] by simp

lemma rnd_pos:
  assumes "0 < x"
  shows "0 < rnd x"
proof -
  have "(0::rat) < 2 powi expo x" by simp
  with rnd_binade(1) [OF assms] show ?thesis by linarith
qed

lemma rnd_double: "rnd (2 * x) = 2 * rnd x"
proof (cases "x = 0")
  case True
  then show ?thesis by simp
next
  case False
  have e: "expo (2 * x) = expo x + 1"
  proof (rule expo_eq)
    have "(2::rat) powi (expo x + 1) = 2 powi expo x * 2" by (subst power_int_add) simp_all
    then show "2 powi (expo x + 1) \<le> \<bar>2 * x\<bar>"
      using expo_bounds(1) [OF False] by (simp add: abs_mult)
    have "(2::rat) powi (expo x + 1 + 1) = 2 powi (expo x + 1) * 2"
      by (subst power_int_add) simp_all
    then show "\<bar>2 * x\<bar> < 2 powi (expo x + 1 + 1)"
      using expo_bounds(2) [OF False] by (simp add: abs_mult)
  qed
  have q: "(2::rat) powi (expo x + 1 - 52) = 2 powi (expo x - 52) * 2"
  proof -
    have "(2::rat) powi (expo x + 1 - 52) = 2 powi (expo x - 52 + 1)"
      by (rule arg_cong [where f = "\<lambda>k. 2 powi k"]) simp
    also have "\<dots> = 2 powi (expo x - 52) * 2" by (subst power_int_add) simp_all
    finally show ?thesis .
  qed
  show ?thesis unfolding rnd_def Let_def e q by simp
qed

lemma rnd_between:
  assumes "0 \<le> x" and "x \<le> c" and "rnd c = c"
  shows "0 \<le> rnd x \<and> rnd x \<le> c"
  using rnd_nonneg [OF assms(1)] rnd_mono [OF assms(1,2)] assms(3) by simp

text \<open>Values of the rounding that the proofs below use.\<close>

lemma rnd_1: "rnd 1 = 1"
  by (subst rnd_eval [of 0]) (simp_all add: power_int_minus)

lemma rnd_half: "rnd (1 / 2) = 1 / 2"
  by (subst rnd_eval [of "- 1"]) (simp_all add: power_int_minus)

lemma rnd_100: "rnd 100 = 100"
  by (subst rnd_eval [of 6]) (simp_all add: power_int_minus)

lemma rnd_50: "rnd 50 = 50"
  by (subst rnd_eval [of 5]) (simp_all add: power_int_minus)

lemma rnd_err_1:
  assumes "\<bar>x\<bar> \<le> 1"
  shows "\<bar>rnd x - x\<bar> \<le> 1 / 9007199254740992"
proof -
  have "\<bar>x\<bar> \<le> 2 powi 0" using assms by simp
  from rnd_err_le [OF this] have "\<bar>rnd x - x\<bar> \<le> 2 powi (- 53)" by simp
  moreover have "(2::rat) powi (- 53) = 1 / 9007199254740992" by (simp add: power_int_minus)
  ultimately show ?thesis by simp
qed

lemma rnd_err_128:
  assumes "\<bar>x\<bar> \<le> 128"
  shows "\<bar>rnd x - x\<bar> \<le> 1 / 70368744177664"
proof -
  have "(2::rat) powi 7 = 128" by simp
  then have "\<bar>x\<bar> \<le> 2 powi 7" using assms by simp
  from rnd_err_le [OF this] have "\<bar>rnd x - x\<bar> \<le> 2 powi (- 46)" by simp
  moreover have "(2::rat) powi (- 46) = 1 / 70368744177664" by (simp add: power_int_minus)
  ultimately show ?thesis by simp
qed

section \<open>Properties of the average rank\<close>

lemma filter_count_disjoint:
  assumes "\<And>x. P x \<Longrightarrow> R x" "\<And>x. Q x \<Longrightarrow> R x" "\<And>x. P x \<Longrightarrow> Q x \<Longrightarrow> False"
  shows "length (filter P xs) + length (filter Q xs) \<le> length (filter R xs)"
proof (induction xs)
  case Nil
  show ?case by simp
next
  case (Cons a xs)
  show ?case
  proof (cases "P a")
    case True
    then have "R a" "\<not> Q a" using assms by blast+
    with True Cons show ?thesis by simp
  next
    case False
    show ?thesis
    proof (cases "Q a")
      case True
      then have "R a" using assms by blast
      with True False Cons show ?thesis by simp
    next
      case q: False
      with False Cons show ?thesis by (cases "R a") simp_all
    qed
  qed
qed

lemma ties_pos: "x \<in> set xs \<Longrightarrow> 1 \<le> length (filter (\<lambda>y. y = x) xs)"
  by (induction xs) auto

lemma average_rank_ge_1:
  assumes "x \<in> set xs"
  shows "1 \<le> average_rank prec xs x"
proof -
  have "(1::rat) \<le> of_nat (length (filter (\<lambda>y. y = x) xs))"
    using ties_pos [OF assms] by (metis of_nat_1 of_nat_le_iff)
  then have "(1::rat) \<le> (of_nat (length (filter (\<lambda>y. y = x) xs)) + 1) / 2" by simp
  moreover have "(0::rat) \<le> of_nat (length (filter (\<lambda>y. prec y x) xs))" by simp
  ultimately show ?thesis unfolding average_rank_def by linarith
qed

lemma average_rank_le_length:
  assumes "x \<in> set xs" and irrefl: "\<not> prec x x"
  shows "average_rank prec xs x \<le> of_nat (length xs)"
proof -
  let ?l = "length (filter (\<lambda>y. prec y x) xs)"
  let ?e = "length (filter (\<lambda>y. y = x) xs)"
  have "?l + ?e \<le> length (filter (\<lambda>y. True) xs)"
    by (rule filter_count_disjoint) (use irrefl in auto)
  then have le: "(of_nat ?l :: rat) + of_nat ?e \<le> of_nat (length xs)"
    by (metis filter_True of_nat_add of_nat_le_iff)
  have "(1::rat) \<le> of_nat ?e"
    using ties_pos [OF assms(1)] by (metis of_nat_1 of_nat_le_iff)
  then have "(of_nat ?e + 1) / 2 \<le> (of_nat ?e :: rat)" by simp
  with le show ?thesis unfolding average_rank_def by linarith
qed

lemma average_rank_mono:
  assumes "y \<in> set xs" and "prec y x"
    and trans: "\<And>z. prec z y \<Longrightarrow> prec z x"
    and irrefl: "\<not> prec y y"
  shows "average_rank prec xs y + 1 / 2 \<le> average_rank prec xs x"
proof -
  let ?ly = "length (filter (\<lambda>z. prec z y) xs)"
  let ?ey = "length (filter (\<lambda>z. z = y) xs)"
  let ?lx = "length (filter (\<lambda>z. prec z x) xs)"
  have "?ly + ?ey \<le> ?lx"
    by (rule filter_count_disjoint) (use assms in auto)
  then have le: "(of_nat ?ly :: rat) + of_nat ?ey \<le> of_nat ?lx"
    by (metis of_nat_add of_nat_le_iff)
  have "(1::rat) \<le> of_nat ?ey"
    using ties_pos [OF assms(1)] by (metis of_nat_1 of_nat_le_iff)
  then have "(of_nat ?ey + 1) / 2 \<le> (of_nat ?ey :: rat)" by simp
  moreover have "(0::rat) \<le> of_nat (length (filter (\<lambda>z. z = x) xs))" by simp
  ultimately show ?thesis using le unfolding average_rank_def by (simp add: field_simps)
qed

lemma sorts_before_trans: "sorts_before z y \<Longrightarrow> sorts_before y x \<Longrightarrow> sorts_before z x"
  by (cases z; cases y; cases x) auto

lemma sorts_before_irrefl: "\<not> sorts_before x x"
  by (cases x) auto

lemma sorts_before_total: "x \<noteq> y \<Longrightarrow> sorts_before x y \<or> sorts_before y x"
  by (cases x; cases y) auto

lemma ties_distinct: "distinct xs \<Longrightarrow> x \<in> set xs \<Longrightarrow> length (filter (\<lambda>y. y = x) xs) = 1"
proof (induction xs)
  case Nil
  then show ?case by simp
next
  case (Cons a xs)
  show ?case
  proof (cases "a = x")
    case True
    then have "x \<notin> set xs" using Cons.prems by simp
    then have "filter (\<lambda>y. y = x) xs = []" by (auto simp: filter_empty_conv)
    with True show ?thesis by simp
  next
    case False
    then have "x \<in> set xs" "distinct xs" using Cons.prems by auto
    with Cons.IH False show ?thesis by simp
  qed
qed

lemma average_rank_top:
  assumes "distinct xs" and "x \<in> set xs"
    and top: "\<And>y. y \<in> set xs \<Longrightarrow> y \<noteq> x \<Longrightarrow> prec y x"
    and irrefl: "\<not> prec x x"
  shows "average_rank prec xs x = of_nat (length xs)"
proof -
  have e: "length (filter (\<lambda>y. y = x) xs) = 1" by (rule ties_distinct [OF assms(1,2)])
  have "filter (\<lambda>y. prec y x) xs = filter (\<lambda>y. \<not> y = x) xs"
  proof (rule filter_cong)
    show "xs = xs" by simp
    fix y assume "y \<in> set xs"
    then show "prec y x = (\<not> y = x)" using top irrefl by blast
  qed
  then have "length (filter (\<lambda>y. prec y x) xs) + length (filter (\<lambda>y. y = x) xs) = length xs"
    using sum_length_filter_compl [of "\<lambda>y. y = x" xs] by simp
  then have "length (filter (\<lambda>y. prec y x) xs) + 1 = length xs" using e by simp
  then have "(of_nat (length (filter (\<lambda>y. prec y x) xs) + 1) :: rat) = of_nat (length xs)"
    by simp
  then have "(of_nat (length (filter (\<lambda>y. prec y x) xs)) :: rat) + 1 = of_nat (length xs)"
    by simp
  then show ?thesis unfolding average_rank_def e by simp
qed

lemma half_sum_aux:
  fixes a b :: rat
  assumes "1 \<le> a" and "1 \<le> b"
  shows "(a + 1) / 2 + 1 \<le> a + (b + 1) / 2"
  using assms by (simp add: field_simps)

lemma average_rank_strict:
  assumes "y \<in> set xs" and "x \<in> set xs" and "prec y x"
    and trans: "\<And>z. prec z y \<Longrightarrow> prec z x"
    and irrefl: "\<not> prec y y"
  shows "average_rank prec xs y + 1 \<le> average_rank prec xs x"
proof -
  let ?ly = "length (filter (\<lambda>z. prec z y) xs)"
  let ?ey = "length (filter (\<lambda>z. z = y) xs)"
  let ?lx = "length (filter (\<lambda>z. prec z x) xs)"
  let ?ex = "length (filter (\<lambda>z. z = x) xs)"
  have "?ly + ?ey \<le> ?lx"
    by (rule filter_count_disjoint) (use assms in auto)
  then have le: "(of_nat ?ly :: rat) + of_nat ?ey \<le> of_nat ?lx"
    by (metis of_nat_add of_nat_le_iff)
  have ey: "(1::rat) \<le> of_nat ?ey"
    using ties_pos [OF assms(1)] by (metis of_nat_1 of_nat_le_iff)
  have ex: "(1::rat) \<le> of_nat ?ex"
    using ties_pos [OF assms(2)] by (metis of_nat_1 of_nat_le_iff)
  have "(of_nat ?ey + 1) / 2 + 1 \<le> (of_nat ?ey :: rat) + (of_nat ?ex + 1) / 2"
    by (rule half_sum_aux [OF ey ex])
  with le show ?thesis unfolding average_rank_def by linarith
qed

lemma sorts_before_NaN: "sorts_before y NaN = (y \<noteq> NaN)"
  by (cases y) simp_all

section \<open>Properties of the percentile normalizer\<close>

lemma length_percentile_score: "length (percentile_score xs a) = length xs"
  by (simp add: percentile_score_def rank_pct_bottom_def Let_def)

lemma percentile_score_nth:
  assumes "i < length xs"
  shows "percentile_score xs a ! i =
     (if a then fmul (fdiv (average_rank sorts_before xs (xs ! i)) (of_nat (length xs))) 100
      else fmul (fsub 1 (fdiv (average_rank sorts_before xs (xs ! i)) (of_nat (length xs))))
             100)"
  using assms by (simp add: percentile_score_def rank_pct_bottom_def Let_def)

lemma rank_quotient_bounds:
  assumes "i < length xs"
  shows "0 < average_rank sorts_before xs (xs ! i) / of_nat (length xs)"
    and "average_rank sorts_before xs (xs ! i) / of_nat (length xs) \<le> 1"
proof -
  have mem: "xs ! i \<in> set xs" using assms by simp
  have n: "(0::rat) < of_nat (length xs)" using assms by auto
  have "1 \<le> average_rank sorts_before xs (xs ! i)" by (rule average_rank_ge_1 [OF mem])
  then show "0 < average_rank sorts_before xs (xs ! i) / of_nat (length xs)"
    using n by simp
  have "average_rank sorts_before xs (xs ! i) \<le> of_nat (length xs)"
    by (rule average_rank_le_length [OF mem sorts_before_irrefl])
  then show "average_rank sorts_before xs (xs ! i) / of_nat (length xs) \<le> 1"
    using n by simp
qed

lemma rank_pct_bounds:
  assumes "i < length xs"
  shows "0 < fdiv (average_rank sorts_before xs (xs ! i)) (of_nat (length xs))"
    and "fdiv (average_rank sorts_before xs (xs ! i)) (of_nat (length xs)) \<le> 1"
proof -
  note b = rank_quotient_bounds [OF assms]
  show "0 < fdiv (average_rank sorts_before xs (xs ! i)) (of_nat (length xs))"
    unfolding fdiv_def by (rule rnd_pos [OF b(1)])
  have "0 \<le> average_rank sorts_before xs (xs ! i) / of_nat (length xs)" using b(1) by simp
  from rnd_mono [OF this b(2)]
  show "fdiv (average_rank sorts_before xs (xs ! i)) (of_nat (length xs)) \<le> 1"
    unfolding fdiv_def rnd_1 .
qed

lemma fmul_100_bounds:
  assumes "0 \<le> p" and "p \<le> 1"
  shows "0 \<le> fmul p 100 \<and> fmul p 100 \<le> 100"
  unfolding fmul_def by (rule rnd_between [OF _ _ rnd_100]) (use assms in simp_all)

lemma fsub_1_bounds:
  assumes "0 \<le> p" and "p \<le> 1"
  shows "0 \<le> fsub 1 p \<and> fsub 1 p \<le> 1"
  unfolding fsub_def by (rule rnd_between [OF _ _ rnd_1]) (use assms in simp_all)

lemma percentile_score_bounds:
  assumes "i < length xs"
  shows "0 \<le> percentile_score xs a ! i \<and> percentile_score xs a ! i \<le> 100"
proof -
  let ?p = "fdiv (average_rank sorts_before xs (xs ! i)) (of_nat (length xs))"
  have p: "0 \<le> ?p" "?p \<le> 1" using rank_pct_bounds [OF assms] by simp_all
  show ?thesis
  proof (cases a)
    case True
    then show ?thesis using fmul_100_bounds [OF p] by (simp add: percentile_score_nth [OF assms])
  next
    case False
    have "0 \<le> fsub 1 ?p" "fsub 1 ?p \<le> 1" using fsub_1_bounds [OF p] by simp_all
    from fmul_100_bounds [OF this] False show ?thesis
      by (simp add: percentile_score_nth [OF assms])
  qed
qed

text \<open>The scores follow the order of the ranks.\<close>

lemma scores_of_ranks_mono:
  assumes "0 \<le> x" and "x \<le> y" and "y \<le> 1"
  shows "fmul (rnd x) 100 \<le> fmul (rnd y) 100"
    and "fmul (fsub 1 (rnd y)) 100 \<le> fmul (fsub 1 (rnd x)) 100"
proof -
  have px: "0 \<le> rnd x" by (rule rnd_nonneg [OF assms(1)])
  have xy: "rnd x \<le> rnd y" by (rule rnd_mono [OF assms(1,2)])
  have y1: "rnd y \<le> 1" using rnd_mono [of y 1] assms rnd_1 by simp
  show "fmul (rnd x) 100 \<le> fmul (rnd y) 100"
    unfolding fmul_def by (rule rnd_mono) (use px xy in simp_all)
  have "rnd (1 - rnd y) \<le> rnd (1 - rnd x)" by (rule rnd_mono) (use y1 xy in simp_all)
  moreover have "0 \<le> rnd (1 - rnd y)" by (rule rnd_nonneg) (use y1 in simp)
  ultimately show "fmul (fsub 1 (rnd y)) 100 \<le> fmul (fsub 1 (rnd x)) 100"
    unfolding fmul_def fsub_def by (intro rnd_mono) simp_all
qed

text \<open>
  Two ranks of a table of less than \<open>2 ^ 26\<close> rows that differ by one half or more give
  different scores.
\<close>

lemma scores_of_ranks_strict:
  assumes "0 \<le> x" and "x + 1 / 134217728 \<le> y" and "y \<le> 1"
  shows "fmul (rnd x) 100 < fmul (rnd y) 100"
    and "fmul (fsub 1 (rnd y)) 100 < fmul (fsub 1 (rnd x)) 100"
proof -
  have x1: "\<bar>x\<bar> \<le> 1" and y1: "\<bar>y\<bar> \<le> 1" using assms by simp_all
  note ex = rnd_err_1 [OF x1] and ey = rnd_err_1 [OF y1]
  have px: "0 \<le> rnd x" by (rule rnd_nonneg [OF assms(1)])
  have py: "rnd y \<le> 1" using rnd_mono [of y 1] assms rnd_1 by simp
  have pxy: "rnd x \<le> rnd y" by (rule rnd_mono) (use assms in simp_all)
  have gap: "rnd x + 1 / 268435456 \<le> rnd y" using ex ey assms(2) by linarith
  have a: "\<bar>rnd x * 100\<bar> \<le> 128" "\<bar>rnd y * 100\<bar> \<le> 128" using px py pxy by simp_all
  note ea = rnd_err_128 [OF a(1)] and eb = rnd_err_128 [OF a(2)]
  show "fmul (rnd x) 100 < fmul (rnd y) 100"
    unfolding fmul_def using ea eb gap by linarith
  have ox: "\<bar>1 - rnd x\<bar> \<le> 1" and oy: "\<bar>1 - rnd y\<bar> \<le> 1" using px py pxy by simp_all
  note eox = rnd_err_1 [OF ox] and eoy = rnd_err_1 [OF oy]
  have gap2: "rnd (1 - rnd y) + 1 / 536870912 \<le> rnd (1 - rnd x)"
    using eox eoy gap by linarith
  have nx: "0 \<le> rnd (1 - rnd x)" "rnd (1 - rnd x) \<le> 1"
    using rnd_between [of "1 - rnd x" 1] px py pxy rnd_1 by simp_all
  have ny: "0 \<le> rnd (1 - rnd y)" "rnd (1 - rnd y) \<le> 1"
    using rnd_between [of "1 - rnd y" 1] px py pxy rnd_1 by simp_all
  have b: "\<bar>rnd (1 - rnd x) * 100\<bar> \<le> 128" "\<bar>rnd (1 - rnd y) * 100\<bar> \<le> 128"
    using nx ny by simp_all
  note ec = rnd_err_128 [OF b(1)] and ed = rnd_err_128 [OF b(2)]
  show "fmul (fsub 1 (rnd y)) 100 < fmul (fsub 1 (rnd x)) 100"
    unfolding fmul_def fsub_def using ec ed gap2 by linarith
qed

lemma average_rank_NaN:
  "average_rank sorts_before xs NaN =
     of_nat (length (filter (\<lambda>y. y \<noteq> NaN) xs))
     + (of_nat (length (filter (\<lambda>y. y = NaN) xs)) + 1) / 2"
  by (simp add: average_rank_def sorts_before_NaN)

lemma rank_quotient_gap:
  fixes a b :: rat and n :: nat
  assumes "a + 1 / 2 \<le> b" and "0 < n" and "n < 2 ^ 26"
  shows "a / of_nat n + 1 / 134217728 \<le> b / of_nat n"
proof -
  have n: "(0::rat) < of_nat n" using assms(2) by simp
  have "(of_nat n :: rat) \<le> of_nat (2 ^ 26)" using assms(3) by (simp only: of_nat_le_iff)
  then have n2: "(of_nat n :: rat) \<le> 67108864" by simp
  have "(1 / 2) / 67108864 \<le> (1 / 2) / (of_nat n :: rat)"
    by (rule divide_left_mono [OF n2]) (use n in simp_all)
  then have g: "1 / 134217728 \<le> (1 / 2) / (of_nat n :: rat)" by simp
  have "(a + 1 / 2) / of_nat n \<le> b / of_nat n"
    by (rule divide_right_mono [OF assms(1)]) (use n in simp)
  then have "a / of_nat n + (1 / 2) / of_nat n \<le> b / of_nat n"
    by (simp only: add_divide_distrib)
  with g show ?thesis by linarith
qed

section \<open>The percentile normalizer: missing values\<close>

text \<open>
  Claim C2, as the code has it. A missing value is neither excluded nor imputed: it is
  ranked after every present value, plus infinity included, and the missing values tie
  with each other. The rank of a row with a missing value is the number of present
  values plus half of one more than the number of missing values, and its score with
  \<open>ascending = True\<close> is that rank divided by the number of rows, times 100. So a row
  with a missing value has the highest percentile, not the lowest: with
  \<open>ascending = True\<close> its score is at least the score of every row, and with
  \<open>ascending = False\<close> at most the score of every row; it has the score of every other
  row with a missing value; and in a table of less than \<open>2 ^ 26\<close> rows its score is
  greater (\<open>ascending = True\<close>) or less (\<open>ascending = False\<close>) than the score of every row
  with a present value.
\<close>

theorem missing_ranked_highest:
  assumes "i < length xs" and "j < length xs" and "xs ! i = NaN"
  shows "percentile_score xs True ! i =
       fmul (fdiv (of_nat (length (filter (\<lambda>y. y \<noteq> NaN) xs))
                   + (of_nat (length (filter (\<lambda>y. y = NaN) xs)) + 1) / 2)
               (of_nat (length xs))) 100
     \<and> percentile_score xs True ! j \<le> percentile_score xs True ! i
     \<and> percentile_score xs False ! i \<le> percentile_score xs False ! j
     \<and> (xs ! j = NaN
          \<longrightarrow> percentile_score xs True ! j = percentile_score xs True ! i
            \<and> percentile_score xs False ! j = percentile_score xs False ! i)
     \<and> (xs ! j \<noteq> NaN \<and> length xs < 2 ^ 26
          \<longrightarrow> percentile_score xs True ! j < percentile_score xs True ! i
            \<and> percentile_score xs False ! i < percentile_score xs False ! j)"
proof -
  let ?ri = "average_rank sorts_before xs (xs ! i)"
  let ?rj = "average_rank sorts_before xs (xs ! j)"
  let ?n = "of_nat (length xs) :: rat"
  have n: "0 < length xs" using assms(1) by auto
  note bi = rank_quotient_bounds [OF assms(1)] and bj = rank_quotient_bounds [OF assms(2)]
  have f: "percentile_score xs True ! i =
       fmul (fdiv (of_nat (length (filter (\<lambda>y. y \<noteq> NaN) xs))
                   + (of_nat (length (filter (\<lambda>y. y = NaN) xs)) + 1) / 2)
               (of_nat (length xs))) 100"
    by (simp add: percentile_score_nth [OF assms(1)] assms(3) average_rank_NaN)
  have gap: "?rj + 1 / 2 \<le> ?ri" if "xs ! j \<noteq> NaN"
  proof -
    have b: "sorts_before (xs ! j) NaN" using that by (simp add: sorts_before_NaN)
    have mem: "xs ! j \<in> set xs" using assms(2) by simp
    have "average_rank sorts_before xs (xs ! j) + 1 / 2 \<le> average_rank sorts_before xs NaN"
      by (rule average_rank_mono [where prec = sorts_before, OF mem b])
        (auto intro: sorts_before_trans [OF _ b] simp: sorts_before_irrefl)
    then show ?thesis using assms(3) by simp
  qed
  have le: "?rj \<le> ?ri"
  proof (cases "xs ! j = NaN")
    case True
    then show ?thesis using assms(3) by simp
  next
    case False
    from gap [OF this] show ?thesis by simp
  qed
  have q: "?rj / ?n \<le> ?ri / ?n" by (rule divide_right_mono [OF le]) simp
  have "0 \<le> ?rj / ?n" using bj(1) by simp
  note m = scores_of_ranks_mono [OF this q bi(2)]
  have w: "percentile_score xs True ! j \<le> percentile_score xs True ! i"
    "percentile_score xs False ! i \<le> percentile_score xs False ! j"
    using m by (simp_all add: percentile_score_nth assms fdiv_def)
  have s: "percentile_score xs True ! j < percentile_score xs True ! i
      \<and> percentile_score xs False ! i < percentile_score xs False ! j"
    if "xs ! j \<noteq> NaN \<and> length xs < 2 ^ 26"
  proof -
    have "?rj / ?n + 1 / 134217728 \<le> ?ri / ?n"
      by (rule rank_quotient_gap [OF gap n]) (use that in simp_all)
    from scores_of_ranks_strict [OF \<open>0 \<le> ?rj / ?n\<close> this bi(2)]
    show ?thesis by (simp add: percentile_score_nth assms fdiv_def)
  qed
  have t: "percentile_score xs True ! j = percentile_score xs True ! i
      \<and> percentile_score xs False ! j = percentile_score xs False ! i"
    if "xs ! j = NaN"
    using that by (simp add: percentile_score_nth assms)
  from f w t s show ?thesis by blast
qed

theorem missing_ranked_highest_witness:
  "percentile_score [Num 5, NaN, PosInf, NaN] True ! 2
     < percentile_score [Num 5, NaN, PosInf, NaN] True ! 1
   \<and> percentile_score [Num 5, NaN, PosInf, NaN] False ! 1
       < percentile_score [Num 5, NaN, PosInf, NaN] False ! 2
   \<and> percentile_score [Num 5, NaN, PosInf, NaN] True ! 3
       = percentile_score [Num 5, NaN, PosInf, NaN] True ! 1
   \<and> percentile_score [Num 5, NaN, PosInf, NaN] False ! 3
       = percentile_score [Num 5, NaN, PosInf, NaN] False ! 1"
proof -
  let ?xs = "[Num 5, NaN, PosInf, NaN]"
  have i: "(1::nat) < length ?xs" "?xs ! 1 = NaN" by simp_all
  have j2: "(2::nat) < length ?xs" and j3: "(3::nat) < length ?xs" by simp_all
  have g: "?xs ! 2 \<noteq> NaN \<and> length ?xs < 2 ^ 26" by simp
  have n: "?xs ! 3 = NaN" by simp
  have a: "percentile_score ?xs True ! 2 < percentile_score ?xs True ! 1
      \<and> percentile_score ?xs False ! 1 < percentile_score ?xs False ! 2"
    using missing_ranked_highest [OF i(1) j2 i(2)] g by blast
  have b: "percentile_score ?xs True ! 3 = percentile_score ?xs True ! 1
      \<and> percentile_score ?xs False ! 3 = percentile_score ?xs False ! 1"
    using missing_ranked_highest [OF i(1) j3 i(2)] n by blast
  from a b show ?thesis by blast
qed

text \<open>
  The claim as stated fails: in the column \<open>[5, NaN]\<close> with \<open>ascending = True\<close> the
  present value scores 50 and the missing value scores 100.
\<close>

theorem missing_not_lowest_counterexample:
  "percentile_score [Num 5, NaN] True = [50, 100] \<and>
   \<not> (percentile_score [Num 5, NaN] True ! 1 \<le> percentile_score [Num 5, NaN] True ! 0)"
  by (simp add: percentile_score_def rank_pct_bottom_def average_rank_def fdiv_def fmul_def
      rnd_1 rnd_half rnd_50 rnd_100)

section \<open>The percentile normalizer: direction\<close>

lemma rank_top:
  assumes i: "i < length xs" and d: "distinct xs"
    and top: "\<forall>y\<in>set xs. y \<noteq> xs ! i \<longrightarrow> sorts_before y (xs ! i)"
  shows "average_rank sorts_before xs (xs ! i) = of_nat (length xs)"
proof -
  have mem: "xs ! i \<in> set xs" using i by simp
  show ?thesis
  proof (rule average_rank_top [OF d mem _ sorts_before_irrefl])
    fix y assume "y \<in> set xs" "y \<noteq> xs ! i"
    then show "sorts_before y (xs ! i)" using top by blast
  qed
qed

lemma rank_bottom:
  assumes i: "i < length xs" and d: "distinct xs"
    and bot: "\<forall>y\<in>set xs. y \<noteq> xs ! i \<longrightarrow> sorts_before (xs ! i) y"
  shows "average_rank sorts_before xs (xs ! i) = 1"
proof -
  have mem: "xs ! i \<in> set xs" using i by simp
  have e: "length (filter (\<lambda>y. y = xs ! i) xs) = 1" by (rule ties_distinct [OF d mem])
  have "\<not> sorts_before y (xs ! i)" if "y \<in> set xs" for y
  proof (cases "y = xs ! i")
    case True
    then show ?thesis by (simp add: sorts_before_irrefl)
  next
    case False
    then have b: "sorts_before (xs ! i) y" using bot that by blast
    show ?thesis
    proof
      assume "sorts_before y (xs ! i)"
      from sorts_before_trans [OF this b] show False by (simp add: sorts_before_irrefl)
    qed
  qed
  then have "filter (\<lambda>y. sorts_before y (xs ! i)) xs = []" by (auto simp: filter_empty_conv)
  then show ?thesis unfolding average_rank_def e by simp
qed

lemma score_of_double_rank:
  assumes "0 < x" and "2 * x \<le> y"
  shows "fmul (rnd x) 100 < fmul (rnd y) 100"
proof -
  have px: "0 < rnd x" by (rule rnd_pos [OF assms(1)])
  then have p: "0 < rnd (rnd x * 100)" by (intro rnd_pos) simp
  have "rnd (2 * x) \<le> rnd y" by (rule rnd_mono) (use assms in simp_all)
  then have "2 * rnd x \<le> rnd y" by (simp only: rnd_double)
  then have "2 * (rnd x * 100) \<le> rnd y * 100" by simp
  moreover have "0 \<le> 2 * (rnd x * 100)" using px by simp
  ultimately have "rnd (2 * (rnd x * 100)) \<le> rnd (rnd y * 100)" by (rule rnd_mono [rotated])
  then have "2 * rnd (rnd x * 100) \<le> rnd (rnd y * 100)" by (simp only: rnd_double)
  with p show ?thesis unfolding fmul_def by linarith
qed

lemma percentile_score_inversion_error:
  assumes "i < length xs"
  shows "\<bar>percentile_score xs False ! i - (100 - percentile_score xs True ! i)\<bar>
     \<le> 1 / 2 ^ 44"
proof -
  let ?p = "fdiv (average_rank sorts_before xs (xs ! i)) (of_nat (length xs))"
  have p: "0 \<le> ?p" "?p \<le> 1" using rank_pct_bounds [OF assms] by simp_all
  have "\<bar>?p * 100\<bar> \<le> 128" using p by simp
  note ea = rnd_err_128 [OF this]
  have "\<bar>1 - ?p\<bar> \<le> 1" using p by simp
  note eo = rnd_err_1 [OF this]
  have o: "0 \<le> rnd (1 - ?p)" "rnd (1 - ?p) \<le> 1"
    using rnd_between [of "1 - ?p" 1] p rnd_1 by simp_all
  then have "\<bar>rnd (1 - ?p) * 100\<bar> \<le> 128" by simp
  note ed = rnd_err_128 [OF this]
  have "\<bar>rnd (rnd (1 - ?p) * 100) - (100 - rnd (?p * 100))\<bar> \<le> 1 / 17592186044416"
    using ea eo ed by linarith
  then show ?thesis
    by (simp add: percentile_score_nth [OF assms] fmul_def fsub_def)
qed

text \<open>
  Claim C8, as the code has it. The score with \<open>ascending = False\<close> is \<open>(1 - p) * 100\<close>
  and the score with \<open>ascending = True\<close> is \<open>p * 100\<close>, both computed in double precision
  from the percentile rank \<open>p\<close>, the average rank of the row divided by the number of rows. They add up to 100 only up to rounding: the first differs
  from 100 minus the second by at most \<open>1 / 2 ^ 44\<close>. In a column of distinct values
  without NaN, the row holding the maximum scores exactly 100 with \<open>ascending = True\<close> and
  exactly 0 with \<open>ascending = False\<close>, and with \<open>ascending = True\<close> the row holding the
  minimum has a score below the score of every other row.
\<close>

theorem percentile_score_directions:
  assumes "i < length xs"
  shows "percentile_score xs True ! i
       = fmul (fdiv (average_rank sorts_before xs (xs ! i)) (of_nat (length xs))) 100
     \<and> percentile_score xs False ! i
       = fmul (fsub 1 (fdiv (average_rank sorts_before xs (xs ! i)) (of_nat (length xs)))) 100
     \<and> \<bar>percentile_score xs False ! i - (100 - percentile_score xs True ! i)\<bar> \<le> 1 / 2 ^ 44
     \<and> (distinct xs \<and> NaN \<notin> set xs \<longrightarrow>
          ((\<forall>y\<in>set xs. y \<noteq> xs ! i \<longrightarrow> sorts_before y (xs ! i))
             \<longrightarrow> percentile_score xs True ! i = 100 \<and> percentile_score xs False ! i = 0)
        \<and> ((\<forall>y\<in>set xs. y \<noteq> xs ! i \<longrightarrow> sorts_before (xs ! i) y)
             \<longrightarrow> (\<forall>j<length xs. j \<noteq> i
                    \<longrightarrow> percentile_score xs True ! i < percentile_score xs True ! j)))"
proof (intro conjI impI allI)
  show "percentile_score xs True ! i
       = fmul (fdiv (average_rank sorts_before xs (xs ! i)) (of_nat (length xs))) 100"
    by (simp add: percentile_score_nth [OF assms])
  show "percentile_score xs False ! i
       = fmul (fsub 1 (fdiv (average_rank sorts_before xs (xs ! i)) (of_nat (length xs)))) 100"
    by (simp add: percentile_score_nth [OF assms])
  show "\<bar>percentile_score xs False ! i - (100 - percentile_score xs True ! i)\<bar> \<le> 1 / 2 ^ 44"
    by (rule percentile_score_inversion_error [OF assms])
  have n: "(0::rat) < of_nat (length xs)" using assms by auto
  {
    assume d: "distinct xs \<and> NaN \<notin> set xs"
      and top: "\<forall>y\<in>set xs. y \<noteq> xs ! i \<longrightarrow> sorts_before y (xs ! i)"
    have r: "average_rank sorts_before xs (xs ! i) = of_nat (length xs)"
      by (rule rank_top [OF assms _ top]) (use d in simp)
    show "percentile_score xs True ! i = 100"
      using n by (simp add: percentile_score_nth [OF assms] r fdiv_def fmul_def rnd_1 rnd_100)
    show "percentile_score xs False ! i = 0"
      using n by (simp add: percentile_score_nth [OF assms] r fdiv_def fmul_def fsub_def rnd_1)
  }
  {
    fix j
    assume d: "distinct xs \<and> NaN \<notin> set xs"
      and bot: "\<forall>y\<in>set xs. y \<noteq> xs ! i \<longrightarrow> sorts_before (xs ! i) y"
      and j: "j < length xs" "j \<noteq> i"
    have ri: "average_rank sorts_before xs (xs ! i) = 1"
      by (rule rank_bottom [OF assms _ bot]) (use d in simp)
    have mi: "xs ! i \<in> set xs" and mj: "xs ! j \<in> set xs" using assms j by simp_all
    have ne: "xs ! j \<noteq> xs ! i" using d j assms by (simp add: nth_eq_iff_index_eq)
    then have b: "sorts_before (xs ! i) (xs ! j)" using bot mj by blast
    have "average_rank sorts_before xs (xs ! i) + 1 \<le> average_rank sorts_before xs (xs ! j)"
    proof (rule average_rank_strict [where prec = sorts_before, OF mi mj b])
      fix z assume "sorts_before z (xs ! i)"
      then show "sorts_before z (xs ! j)" by (rule sorts_before_trans [OF _ b])
    next
      show "\<not> sorts_before (xs ! i) (xs ! i)" by (rule sorts_before_irrefl)
    qed
    then have rj: "2 \<le> average_rank sorts_before xs (xs ! j)" unfolding ri by simp
    have "2 * (1 / of_nat (length xs))
        \<le> average_rank sorts_before xs (xs ! j) / (of_nat (length xs) :: rat)"
      using divide_right_mono [OF rj, of "of_nat (length xs)"] by simp
    moreover have "(0::rat) < 1 / of_nat (length xs)" using n by simp
    ultimately have "fmul (rnd (1 / of_nat (length xs))) 100
        < fmul (rnd (average_rank sorts_before xs (xs ! j) / of_nat (length xs))) 100"
      by (rule score_of_double_rank [rotated])
    then show "percentile_score xs True ! i < percentile_score xs True ! j"
      by (simp add: percentile_score_nth assms j ri fdiv_def)
  }
qed

theorem percentile_score_directions_witness:
  "\<bar>percentile_score [Num 30, Num 10, Num 20] False ! 0
      - (100 - percentile_score [Num 30, Num 10, Num 20] True ! 0)\<bar> \<le> 1 / 2 ^ 44
   \<and> percentile_score [Num 30, Num 10, Num 20] True ! 0 = 100
   \<and> percentile_score [Num 30, Num 10, Num 20] False ! 0 = 0
   \<and> percentile_score [Num 30, Num 10, Num 20] True ! 1
       < percentile_score [Num 30, Num 10, Num 20] True ! 2"
proof -
  let ?xs = "[Num 30, Num 10, Num 20]"
  have len: "(0::nat) < length ?xs" "(1::nat) < length ?xs" "(2::nat) < length ?xs"
    by simp_all
  have d: "distinct ?xs \<and> NaN \<notin> set ?xs" by simp
  have top: "\<forall>y\<in>set ?xs. y \<noteq> ?xs ! 0 \<longrightarrow> sorts_before y (?xs ! 0)" by simp
  have bot: "\<forall>y\<in>set ?xs. y \<noteq> ?xs ! 1 \<longrightarrow> sorts_before (?xs ! 1) y" by simp
  have a: "\<bar>percentile_score ?xs False ! 0 - (100 - percentile_score ?xs True ! 0)\<bar>
      \<le> 1 / 2 ^ 44"
    using percentile_score_directions [OF len(1)] by blast
  have b: "percentile_score ?xs True ! 0 = 100 \<and> percentile_score ?xs False ! 0 = 0"
    using percentile_score_directions [OF len(1)] d top by blast
  have "\<forall>j<length ?xs. j \<noteq> 1
      \<longrightarrow> percentile_score ?xs True ! 1 < percentile_score ?xs True ! j"
    using percentile_score_directions [OF len(2)] d bot by blast
  then have c: "percentile_score ?xs True ! 1 < percentile_score ?xs True ! 2"
    using len(3) by auto
  from a b c show ?thesis by blast
qed

text \<open>
  The claim as stated fails: the two scores do not add up to 100 in every row. In the
  column \<open>[30, 10, 20]\<close> the percentile rank of the value 20 is the double nearest to
  2/3; its score with \<open>ascending = False\<close> is 33.333333333333336 and 100 minus its score
  with \<open>ascending = True\<close> is 33.33333333333334, whether the subtraction is exact or in
  double precision.
\<close>

lemma rnd_two_thirds: "rnd (2 / 3) = 6004799503160661 / 9007199254740992"
  by (subst rnd_eval [of "- 1"])
    (simp_all add: power_int_minus round_half_even_def floor_rat_divide_numeral Let_def)

lemma rnd_asc_two_thirds:
  "rnd (150119987579016525 / 2251799813685248) = 2345624805922133 / 35184372088832"
  by (subst rnd_eval [of 6])
    (simp_all add: power_int_minus round_half_even_def floor_rat_divide_numeral Let_def)

lemma rnd_one_third:
  "rnd (3002399751580331 / 9007199254740992) = 3002399751580331 / 9007199254740992"
  by (subst rnd_eval [of "- 2"])
    (simp_all add: power_int_minus round_half_even_def floor_rat_divide_numeral Let_def)

lemma rnd_desc_two_thirds:
  "rnd (75059993789508275 / 2251799813685248) = 4691249611844267 / 140737488355328"
  by (subst rnd_eval [of 5])
    (simp_all add: power_int_minus round_half_even_def floor_rat_divide_numeral Let_def)

lemma rnd_100_minus_asc:
  "rnd (1172812402961067 / 35184372088832) = 1172812402961067 / 35184372088832"
  by (subst rnd_eval [of 5])
    (simp_all add: power_int_minus round_half_even_def floor_rat_divide_numeral Let_def)

lemma percentile_score_example:
  "percentile_score [Num 30, Num 10, Num 20] True ! 2 = 2345624805922133 / 35184372088832"
  "percentile_score [Num 30, Num 10, Num 20] False ! 2 = 4691249611844267 / 140737488355328"
  by (simp_all add: percentile_score_def rank_pct_bottom_def average_rank_def fdiv_def
      fmul_def fsub_def rnd_two_thirds rnd_asc_two_thirds rnd_one_third rnd_desc_two_thirds)

theorem inversion_not_exact_counterexample:
  "percentile_score [Num 30, Num 10, Num 20] False ! 2 = 4691249611844267 / 140737488355328
   \<and> 100 - percentile_score [Num 30, Num 10, Num 20] True ! 2
       = 1172812402961067 / 35184372088832
   \<and> percentile_score [Num 30, Num 10, Num 20] False ! 2
       \<noteq> 100 - percentile_score [Num 30, Num 10, Num 20] True ! 2
   \<and> percentile_score [Num 30, Num 10, Num 20] False ! 2
       \<noteq> fsub 100 (percentile_score [Num 30, Num 10, Num 20] True ! 2)"
  by (simp add: percentile_score_example fsub_def rnd_100_minus_asc)

section \<open>Rows of the scored table\<close>

lemma length_build_composite_score: "length (build_composite_score df) = length df"
  by (simp add: build_composite_score_def Let_def)

lemma build_composite_score_nth:
  assumes "i < length df"
  shows "build_composite_score df ! i =
     tract_m.extend (df ! i)
       (tract_s.fields (score_supply_gap df ! i) (score_demand_signal df ! i)
          (score_funding_tailwind df ! i) (score_build_feasibility df ! i)
          (composite (score_supply_gap df ! i) (score_demand_signal df ! i)
             (score_funding_tailwind df ! i) (score_build_feasibility df ! i))
          (astype_int (rank_descending (map (\<lambda>i. composite (score_supply_gap df ! i)
             (score_demand_signal df ! i) (score_funding_tailwind df ! i)
             (score_build_feasibility df ! i)) [0..<length df]) ! i))
          (cut tier_bins tier_labels (composite (score_supply_gap df ! i)
             (score_demand_signal df ! i) (score_funding_tailwind df ! i)
             (score_build_feasibility df ! i))))"
  using assms by (simp add: build_composite_score_def Let_def rank_descending_def)

lemma scored_row_fields:
  assumes "i < length df"
  shows "score_supply_gap_col (build_composite_score df ! i) = score_supply_gap df ! i"
    and "score_demand_signal_col (build_composite_score df ! i) = score_demand_signal df ! i"
    and "score_funding_tailwind_col (build_composite_score df ! i) = score_funding_tailwind df ! i"
    and "score_build_feasibility_col (build_composite_score df ! i)
           = score_build_feasibility df ! i"
    and "opportunity_score (build_composite_score df ! i)
           = composite (score_supply_gap df ! i) (score_demand_signal df ! i)
               (score_funding_tailwind df ! i) (score_build_feasibility df ! i)"
    and "opportunity_tier (build_composite_score df ! i)
           = cut tier_bins tier_labels (opportunity_score (build_composite_score df ! i))"
  unfolding build_composite_score_nth [OF assms]
  by (simp_all add: tract_m.defs tract_s.defs)

lemma scored_row_inputs:
  assumes "i < length df"
  shows "rucc_code (build_composite_score df ! i) = rucc_code (df ! i)"
    and "acs (build_composite_score df ! i) = acs (df ! i)"
    and "fcc (build_composite_score df ! i) = fcc (df ! i)"
    and "county_geoid (build_composite_score df ! i) = county_geoid (df ! i)"
  unfolding build_composite_score_nth [OF assms]
  by (simp_all add: tract_m.defs tract_s.defs)

lemma opportunity_score_column:
  "map opportunity_score (build_composite_score df)
     = map (\<lambda>i. composite (score_supply_gap df ! i) (score_demand_signal df ! i)
         (score_funding_tailwind df ! i) (score_build_feasibility df ! i)) [0..<length df]"
  by (rule nth_equalityI) (simp_all add: length_build_composite_score scored_row_fields(5))

lemma opportunity_rank_column:
  "map opportunity_rank (build_composite_score df)
     = map astype_int (rank_descending (map opportunity_score (build_composite_score df)))"
  unfolding opportunity_score_column
  by (rule nth_equalityI)
    (simp_all add: length_build_composite_score rank_descending_def build_composite_score_nth
      tract_m.defs tract_s.defs)

lemma opportunity_tier_column:
  "map opportunity_tier (build_composite_score df)
     = map (\<lambda>r. cut tier_bins tier_labels (opportunity_score r)) (build_composite_score df)"
  by (rule nth_equalityI) (simp_all add: length_build_composite_score scored_row_fields(6))

section \<open>The tier\<close>

lemma cut_tiers:
  "cut tier_bins tier_labels x =
     (if 0 < x \<and> x \<le> 30 then Some ''Low''
      else if 30 < x \<and> x \<le> 50 then Some ''Below Average''
      else if 50 < x \<and> x \<le> 65 then Some ''Moderate''
      else if 65 < x \<and> x \<le> 80 then Some ''High''
      else if 80 < x \<and> x \<le> 100 then Some ''Very High''
      else None)"
  by (simp add: cut_def tier_bins_def tier_labels_def Let_def)

text \<open>
  Claim C5. The tier column of the scored table is \<^verbatim>\<open>pd.cut\<close> of the composite score, and
  the buckets are closed on the right: a score in (0, 30] is Low, in (30, 50] Below
  Average, in (50, 65] Moderate, in (65, 80] High, in (80, 100] Very High, and every other
  score has no label. So 50 is Below Average, 30 is Low, 65 is Moderate, 80 is High and 0
  has no label.
\<close>

theorem tier_right_inclusive_buckets:
  "map opportunity_tier (build_composite_score df)
     = map (\<lambda>r. cut tier_bins tier_labels (opportunity_score r)) (build_composite_score df)
   \<and> cut tier_bins tier_labels x =
     (if 0 < x \<and> x \<le> 30 then Some ''Low''
      else if 30 < x \<and> x \<le> 50 then Some ''Below Average''
      else if 50 < x \<and> x \<le> 65 then Some ''Moderate''
      else if 65 < x \<and> x \<le> 80 then Some ''High''
      else if 80 < x \<and> x \<le> 100 then Some ''Very High''
      else None)
   \<and> cut tier_bins tier_labels 50 = Some ''Below Average''
   \<and> cut tier_bins tier_labels 30 = Some ''Low''
   \<and> cut tier_bins tier_labels 65 = Some ''Moderate''
   \<and> cut tier_bins tier_labels 80 = Some ''High''
   \<and> cut tier_bins tier_labels 0 = None"
  unfolding cut_tiers using opportunity_tier_column [of df, unfolded cut_tiers] by simp

section \<open>The example tables\<close>

lemma zfill_51001: "zfill 5 (str_of_int 51001) = ''51001''"
  by (simp add: zfill_def str_of_int_def char_of_def bit_0)

lemma example_acs_sel:
  "GEOID (example_acs g v) = g" "total_population (example_acs g v) = Num 4000"
  "hh_total (example_acs g v) = Num 1500" "median_hh_income (example_acs g v) = v"
  by (simp_all add: example_acs_def)

lemma example_fcc_sel: "GEOID_fcc (example_fcc g) = g" "TotalBSLs (example_fcc g) = Num 2000"
  by (simp_all add: example_fcc_def)

lemma inner_merge_example:
  "inner_merge example_acs_table example_fcc_table =
     [(example_acs ''51001090100'' (Num 25000), example_fcc ''51001090100''),
      (example_acs ''51999000100'' NaN, example_fcc ''51999000100'')]"
  by (simp add: inner_merge_def example_acs_table_def example_fcc_table_def example_acs_sel
      example_fcc_sel)

lemma replace_example_income:
  "(example_acs g v)\<lparr>median_hh_income := w\<rparr> = example_acs g w"
  by (simp add: example_acs_def)

lemma load_and_merge_example:
  "load_and_merge example_acs_table example_fcc_table example_rucc = example_tracts"
  unfolding load_and_merge_def Let_def inner_merge_example
  by (simp add: left_merge_rucc_def example_rucc_def zfill_51001 retained_def
      example_tracts_def replace_cell_def example_acs_sel example_fcc_sel
      replace_example_income)

section \<open>Bounds of the scores\<close>

text \<open>The weights of the source, as doubles, and the greatest value of each term.\<close>

lemma rnd_030: "rnd 0.30 = 5404319552844595 / 18014398509481984"
proof -
  have "rnd (3 / 10) = 5404319552844595 / 18014398509481984"
    by (subst rnd_eval [of "- 2"])
      (simp_all add: power_int_minus round_half_even_def floor_rat_divide_numeral Let_def)
  then show ?thesis by simp
qed

lemma rnd_025: "rnd 0.25 = 1 / 4"
proof -
  have "rnd (1 / 4) = 1 / 4"
    by (subst rnd_eval [of "- 2"])
      (simp_all add: power_int_minus round_half_even_def floor_rat_divide_numeral Let_def)
  then show ?thesis by simp
qed

lemma rnd_020: "rnd 0.20 = 3602879701896397 / 18014398509481984"
proof -
  have "rnd (1 / 5) = 3602879701896397 / 18014398509481984"
    by (subst rnd_eval [of "- 3"])
      (simp_all add: power_int_minus round_half_even_def floor_rat_divide_numeral Let_def)
  then show ?thesis by simp
qed

lemma rnd_015: "rnd 0.15 = 5404319552844595 / 36028797018963968"
proof -
  have "rnd (3 / 20) = 5404319552844595 / 36028797018963968"
    by (subst rnd_eval [of "- 3"])
      (simp_all add: power_int_minus round_half_even_def floor_rat_divide_numeral Let_def)
  then show ?thesis by simp
qed

lemma rnd_010: "rnd 0.10 = 3602879701896397 / 36028797018963968"
proof -
  have "rnd (1 / 10) = 3602879701896397 / 36028797018963968"
    by (subst rnd_eval [of "- 4"])
      (simp_all add: power_int_minus round_half_even_def floor_rat_divide_numeral Let_def)
  then show ?thesis by simp
qed

lemma rnd_040: "rnd 0.40 = 3602879701896397 / 9007199254740992"
proof -
  have "rnd (2 / 5) = 3602879701896397 / 9007199254740992"
    by (subst rnd_eval [of "- 2"])
      (simp_all add: power_int_minus round_half_even_def floor_rat_divide_numeral Let_def)
  then show ?thesis by simp
qed

lemma rnd_035: "rnd 0.35 = 3152519739159347 / 9007199254740992"
proof -
  have "rnd (7 / 20) = 3152519739159347 / 9007199254740992"
    by (subst rnd_eval [of "- 2"])
      (simp_all add: power_int_minus round_half_even_def floor_rat_divide_numeral Let_def)
  then show ?thesis by simp
qed

lemma top_030: "rnd (100 * rnd 0.30) = 30"
  unfolding rnd_030 by (subst rnd_eval [of 4])
    (simp_all add: power_int_minus round_half_even_def floor_rat_divide_numeral Let_def)

lemma top_025: "rnd (100 * rnd 0.25) = 25"
  unfolding rnd_025 by (subst rnd_eval [of 4])
    (simp_all add: power_int_minus round_half_even_def floor_rat_divide_numeral Let_def)

lemma top_020: "rnd (100 * rnd 0.20) = 20"
  unfolding rnd_020 by (subst rnd_eval [of 4])
    (simp_all add: power_int_minus round_half_even_def floor_rat_divide_numeral Let_def)

lemma top_015: "rnd (100 * rnd 0.15) = 15"
  unfolding rnd_015 by (subst rnd_eval [of 3])
    (simp_all add: power_int_minus round_half_even_def floor_rat_divide_numeral Let_def)

lemma top_010: "rnd (100 * rnd 0.10) = 10"
  unfolding rnd_010 by (subst rnd_eval [of 3])
    (simp_all add: power_int_minus round_half_even_def floor_rat_divide_numeral Let_def)

lemma top_040: "rnd (100 * rnd 0.40) = 40"
  unfolding rnd_040 by (subst rnd_eval [of 5])
    (simp_all add: power_int_minus round_half_even_def floor_rat_divide_numeral Let_def)

lemma top_035: "rnd (100 * rnd 0.35) = 35"
  unfolding rnd_035 by (subst rnd_eval [of 5])
    (simp_all add: power_int_minus round_half_even_def floor_rat_divide_numeral Let_def)

lemma rnd_sums:
  "rnd (30 + 25) = 55" "rnd (55 + 20) = 75" "rnd (75 + 15) = 90" "rnd (90 + 10) = 100"
  "rnd (30 + 30) = 60" "rnd (60 + 20) = 80" "rnd (80 + 20) = 100"
  "rnd (40 + 35) = 75" "rnd (75 + 25) = 100"
  "rnd (40 + 30) = 70" "rnd (70 + 15) = 85" "rnd (85 + 15) = 100"
proof -
  have a: "rnd 55 = 55" "rnd 60 = 60"
    by (subst rnd_eval [of 5], simp_all add: power_int_minus)+
  have b: "rnd 75 = 75" "rnd 90 = 90" "rnd 80 = 80" "rnd 70 = 70" "rnd 85 = 85"
    by (subst rnd_eval [of 6], simp_all add: power_int_minus)+
  show "rnd (30 + 25) = 55" "rnd (55 + 20) = 75" "rnd (75 + 15) = 90" "rnd (90 + 10) = 100"
    "rnd (30 + 30) = 60" "rnd (60 + 20) = 80" "rnd (80 + 20) = 100"
    "rnd (40 + 35) = 75" "rnd (75 + 25) = 100"
    "rnd (40 + 30) = 70" "rnd (70 + 15) = 85" "rnd (85 + 15) = 100"
    using a b rnd_100 by simp_all
qed

lemma fmul_weight_bounds:
  assumes "0 \<le> s \<and> s \<le> 100" and "0 \<le> w" and "rnd (100 * w) = c"
  shows "0 \<le> fmul s w \<and> fmul s w \<le> c"
proof -
  have "0 \<le> s * w" using assms by simp
  moreover have "s * w \<le> 100 * w" using assms by (intro mult_right_mono) simp_all
  ultimately show ?thesis
    unfolding fmul_def using rnd_nonneg [of "s * w"] rnd_mono [of "s * w" "100 * w"] assms(3)
    by simp
qed

lemma fadd_bounds:
  assumes "0 \<le> a \<and> a \<le> a'" and "0 \<le> b \<and> b \<le> b'" and "rnd (a' + b') = c"
  shows "0 \<le> fadd a b \<and> fadd a b \<le> c"
  unfolding fadd_def using rnd_nonneg [of "a + b"] rnd_mono [of "a + b" "a' + b'"] assms
  by simp

lemma weight_nonneg:
  "0 \<le> rnd 0.30" "0 \<le> rnd 0.25" "0 \<le> rnd 0.20" "0 \<le> rnd 0.15" "0 \<le> rnd 0.10"
  "0 \<le> rnd 0.40" "0 \<le> rnd 0.35"
  by (simp_all add: rnd_nonneg)

lemma weighted5_bounds:
  assumes "0 \<le> a \<and> a \<le> 100" "0 \<le> b \<and> b \<le> 100" "0 \<le> c \<and> c \<le> 100"
    "0 \<le> d \<and> d \<le> 100" "0 \<le> e \<and> e \<le> 100"
  shows "0 \<le> weighted5 a b c d e \<and> weighted5 a b c d e \<le> 100"
  unfolding weighted5_def
  by (intro fadd_bounds [OF _ _ rnd_sums(4)] fadd_bounds [OF _ _ rnd_sums(3)]
      fadd_bounds [OF _ _ rnd_sums(2)] fadd_bounds [OF _ _ rnd_sums(1)]
      fmul_weight_bounds [OF _ _ top_030] fmul_weight_bounds [OF _ _ top_025]
      fmul_weight_bounds [OF _ _ top_020] fmul_weight_bounds [OF _ _ top_015]
      fmul_weight_bounds [OF _ _ top_010] weight_nonneg assms)

lemma weighted4_bounds:
  assumes "0 \<le> a \<and> a \<le> 100" "0 \<le> b \<and> b \<le> 100" "0 \<le> c \<and> c \<le> 100"
    "0 \<le> d \<and> d \<le> 100"
  shows "0 \<le> weighted4 a b c d \<and> weighted4 a b c d \<le> 100"
  unfolding weighted4_def
  by (intro fadd_bounds [OF _ _ rnd_sums(7)] fadd_bounds [OF _ _ rnd_sums(6)]
      fadd_bounds [OF _ _ rnd_sums(5)]
      fmul_weight_bounds [OF _ _ top_030] fmul_weight_bounds [OF _ _ top_020]
      weight_nonneg assms)

lemma weighted3_bounds:
  assumes "0 \<le> a \<and> a \<le> 100" "0 \<le> b \<and> b \<le> 100" "0 \<le> c \<and> c \<le> 100"
  shows "0 \<le> weighted3 a b c \<and> weighted3 a b c \<le> 100"
  unfolding weighted3_def
  by (intro fadd_bounds [OF _ _ rnd_sums(9)] fadd_bounds [OF _ _ rnd_sums(8)]
      fmul_weight_bounds [OF _ _ top_040] fmul_weight_bounds [OF _ _ top_035]
      fmul_weight_bounds [OF _ _ top_025] weight_nonneg assms)

lemma composite_bounds:
  assumes "0 \<le> a \<and> a \<le> 100" "0 \<le> b \<and> b \<le> 100" "0 \<le> c \<and> c \<le> 100"
    "0 \<le> d \<and> d \<le> 100"
  shows "0 \<le> composite a b c d \<and> composite a b c d \<le> 100"
  unfolding composite_def
  by (intro fadd_bounds [OF _ _ rnd_sums(12)] fadd_bounds [OF _ _ rnd_sums(11)]
      fadd_bounds [OF _ _ rnd_sums(10)]
      fmul_weight_bounds [OF _ _ top_040] fmul_weight_bounds [OF _ _ top_030]
      fmul_weight_bounds [OF _ _ top_015] weight_nonneg assms)

lemma percentile_column_bounds:
  assumes "i < length df"
  shows "0 \<le> percentile_score (map f df) a ! i \<and> percentile_score (map f df) a ! i \<le> 100"
  by (rule percentile_score_bounds) (simp add: assms)

lemma score_supply_gap_nth:
  assumes "i < length df"
  shows "score_supply_gap df ! i =
     weighted5 (percentile_score (map (\<lambda>r. UniqueProvidersFiber (fcc r)) df) False ! i)
       (percentile_score (map pct_no_fiber df) True ! i)
       (percentile_score (map pct_unserved_underserved df) True ! i)
       (percentile_score (map pct_copper_served df) True ! i)
       (percentile_score (map (\<lambda>r. UniqueProviders (fcc r)) df) False ! i)"
  using assms by (simp add: score_supply_gap_def Let_def)

lemma score_supply_gap_bounds:
  assumes "i < length df"
  shows "0 \<le> score_supply_gap df ! i \<and> score_supply_gap df ! i \<le> 100"
  unfolding score_supply_gap_nth [OF assms]
  by (intro weighted5_bounds percentile_column_bounds assms)

lemma income_score_nth:
  assumes "i < length df"
  shows "income_score df ! i =
     fmul (percentile_score (income_filled df) True ! i)
       (if cell_lt (income_filled df ! i) 30000 then 1 / 2 else 1)"
  using assms
  by (simp add: income_score_def low_income_penalty_def income_filled_def Let_def rnd_half
      rnd_1)

lemma income_filled_nth:
  assumes "i < length df"
  shows "income_filled df ! i =
     (if median_hh_income (acs (df ! i)) = NaN
      then median_skipna (map (\<lambda>r. median_hh_income (acs r)) df)
      else median_hh_income (acs (df ! i)))"
  using assms by (simp add: income_filled_def fillna_def Let_def)

lemma length_income_filled: "length (income_filled df) = length df"
  by (simp add: income_filled_def Let_def)

lemma income_score_bounds:
  assumes "i < length df"
  shows "0 \<le> income_score df ! i \<and> income_score df ! i \<le> 100"
proof -
  have "i < length (income_filled df)" using assms by (simp add: length_income_filled)
  note b = percentile_score_bounds [OF this, of True]
  show ?thesis
  proof (cases "cell_lt (income_filled df ! i) 30000")
    case True
    have "0 \<le> fmul (percentile_score (income_filled df) True ! i) (1 / 2)
        \<and> fmul (percentile_score (income_filled df) True ! i) (1 / 2) \<le> 50"
      by (rule fmul_weight_bounds [OF b]) (simp_all add: rnd_50)
    with True show ?thesis unfolding income_score_nth [OF assms] by simp
  next
    case False
    have "0 \<le> fmul (percentile_score (income_filled df) True ! i) 1
        \<and> fmul (percentile_score (income_filled df) True ! i) 1 \<le> 100"
      by (rule fmul_weight_bounds [OF b]) (simp_all add: rnd_100)
    with False show ?thesis unfolding income_score_nth [OF assms] by simp
  qed
qed

lemma score_demand_signal_nth:
  assumes "i < length df"
  shows "score_demand_signal df ! i =
     weighted5 (income_score df ! i)
       (percentile_score (map (\<lambda>r. TotalBSLs (fcc r)) df) True ! i)
       (percentile_score (map pct_cellular_only df) True ! i)
       (percentile_score (map (\<lambda>r. clip_lower 0 (adoption_gap r)) df) True ! i)
       (percentile_score (map (\<lambda>r. total_population (acs r)) df) True ! i)"
  using assms by (simp add: score_demand_signal_def Let_def)

lemma score_demand_signal_bounds:
  assumes "i < length df"
  shows "0 \<le> score_demand_signal df ! i \<and> score_demand_signal df ! i \<le> 100"
  unfolding score_demand_signal_nth [OF assms]
  by (intro weighted5_bounds income_score_bounds percentile_column_bounds assms)

lemma score_funding_tailwind_nth:
  assumes "i < length df"
  shows "score_funding_tailwind df ! i =
     weighted4 (percentile_score (map (\<lambda>r. UnservedBSLs (fcc r)) df) True ! i)
       (percentile_score (map pct_unserved df) True ! i)
       (percentile_score (map (\<lambda>r. UnderservedBSLs (fcc r)) df) True ! i)
       (percentile_score (map pct_unserved_underserved df) True ! i)"
  using assms by (simp add: score_funding_tailwind_def Let_def)

lemma score_funding_tailwind_bounds:
  assumes "i < length df"
  shows "0 \<le> score_funding_tailwind df ! i \<and> score_funding_tailwind df ! i \<le> 100"
  unfolding score_funding_tailwind_nth [OF assms]
  by (intro weighted4_bounds percentile_column_bounds assms)

lemma rucc_score_bounds: "0 \<le> map_fillna rucc_map 50 x \<and> map_fillna rucc_map 50 x \<le> 100"
  by (cases x) (simp_all add: map_fillna_def rucc_map_def)

lemma bsl_density_score_bounds: "0 \<le> bsl_density_score p \<and> bsl_density_score p \<le> 100"
  by (simp add: bsl_density_score_def)

lemma score_build_feasibility_nth:
  assumes "i < length df"
  shows "score_build_feasibility df ! i =
     weighted3 (map_fillna rucc_map 50 (rucc_code (df ! i)))
       (bsl_density_score (rank_pct_keep (map (\<lambda>r. TotalBSLs (fcc r)) df) ! i))
       (percentile_score (map (\<lambda>r. UniqueProviders (fcc r)) df) False ! i)"
  using assms by (simp add: score_build_feasibility_def rank_pct_keep_def Let_def)

lemma score_build_feasibility_bounds:
  assumes "i < length df"
  shows "0 \<le> score_build_feasibility df ! i \<and> score_build_feasibility df ! i \<le> 100"
  unfolding score_build_feasibility_nth [OF assms]
  by (intro weighted3_bounds rucc_score_bounds bsl_density_score_bounds
      percentile_column_bounds assms)

text \<open>
  Claim C3. For every row of the scored table, whatever the values of the input columns
  (ratios above 100 or below 0, infinities and missing values included), each of the four
  sub-scores and the composite opportunity score, as computed in double precision, lies
  between 0 and 100.
\<close>

theorem scores_between_0_and_100:
  assumes "r \<in> set (build_composite_score df)"
  shows "0 \<le> score_supply_gap_col r \<and> score_supply_gap_col r \<le> 100
     \<and> 0 \<le> score_demand_signal_col r \<and> score_demand_signal_col r \<le> 100
     \<and> 0 \<le> score_funding_tailwind_col r \<and> score_funding_tailwind_col r \<le> 100
     \<and> 0 \<le> score_build_feasibility_col r \<and> score_build_feasibility_col r \<le> 100
     \<and> 0 \<le> opportunity_score r \<and> opportunity_score r \<le> 100"
proof -
  obtain i where i: "i < length df" and r: "r = build_composite_score df ! i"
    using assms by (auto simp: in_set_conv_nth length_build_composite_score)
  note b = score_supply_gap_bounds [OF i] score_demand_signal_bounds [OF i]
    score_funding_tailwind_bounds [OF i] score_build_feasibility_bounds [OF i]
  have c: "0 \<le> opportunity_score r \<and> opportunity_score r \<le> 100"
    unfolding r scored_row_fields(5) [OF i] by (rule composite_bounds [OF b])
  show ?thesis using b c unfolding r scored_row_fields(1-4) [OF i] by blast
qed

theorem scores_between_0_and_100_witness:
  "0 \<le> score_supply_gap_col (build_composite_score example_df ! 1)
   \<and> score_supply_gap_col (build_composite_score example_df ! 1) \<le> 100
   \<and> 0 \<le> score_demand_signal_col (build_composite_score example_df ! 1)
   \<and> score_demand_signal_col (build_composite_score example_df ! 1) \<le> 100
   \<and> 0 \<le> score_funding_tailwind_col (build_composite_score example_df ! 1)
   \<and> score_funding_tailwind_col (build_composite_score example_df ! 1) \<le> 100
   \<and> 0 \<le> score_build_feasibility_col (build_composite_score example_df ! 1)
   \<and> score_build_feasibility_col (build_composite_score example_df ! 1) \<le> 100
   \<and> 0 \<le> opportunity_score (build_composite_score example_df ! 1)
   \<and> opportunity_score (build_composite_score example_df ! 1) \<le> 100"
proof -
  have "build_composite_score example_df ! 1 \<in> set (build_composite_score example_df)"
    by (rule nth_mem)
      (simp add: length_build_composite_score example_df_def compute_derived_metrics_def
        example_tracts_def)
  from scores_between_0_and_100 [OF this] show ?thesis .
qed

section \<open>The composite score\<close>

lemma rnd_weight_le_1:
  assumes "0 \<le> w" and "w \<le> 1"
  shows "0 \<le> rnd w" and "rnd w \<le> 1" and "\<bar>rnd w - w\<bar> \<le> 1 / 9007199254740992"
proof -
  show "0 \<le> rnd w" by (rule rnd_nonneg [OF assms(1)])
  show "rnd w \<le> 1" using rnd_mono [OF assms] rnd_1 by simp
  show "\<bar>rnd w - w\<bar> \<le> 1 / 9007199254740992" by (rule rnd_err_1) (use assms in simp)
qed

lemma fmul_weight_err:
  assumes s: "0 \<le> s \<and> s \<le> 100" and w: "0 \<le> w" "w \<le> 1"
  shows "\<bar>fmul s (rnd w) - s * w\<bar> \<le> 1 / 35184372088832"
proof -
  note rw = rnd_weight_le_1 [OF w]
  have "s * rnd w \<le> 100 * 1" by (rule mult_mono) (use s rw in simp_all)
  moreover have "0 \<le> s * rnd w" using s rw by simp
  ultimately have "\<bar>s * rnd w\<bar> \<le> 128" by simp
  note e1 = rnd_err_128 [OF this]
  have "\<bar>s * (rnd w - w)\<bar> = s * \<bar>rnd w - w\<bar>" using s by (simp add: abs_mult)
  also have "\<dots> \<le> 100 * (1 / 9007199254740992)"
    by (rule mult_mono) (use s rw in simp_all)
  finally have e2: "\<bar>s * rnd w - s * w\<bar> \<le> 100 / 9007199254740992"
    by (simp add: right_diff_distrib)
  show ?thesis unfolding fmul_def using e1 e2 by linarith
qed

lemma fadd_err:
  assumes "0 \<le> a \<and> a \<le> 90" and "0 \<le> b \<and> b \<le> 30"
  shows "\<bar>fadd a b - (a + b)\<bar> \<le> 1 / 70368744177664"
  unfolding fadd_def by (rule rnd_err_128) (use assms in simp)

lemma composite_error:
  assumes s: "0 \<le> s \<and> s \<le> 100" and d: "0 \<le> d \<and> d \<le> 100"
    and f: "0 \<le> f \<and> f \<le> 100" and b: "0 \<le> b \<and> b \<le> 100"
  shows "\<bar>composite s d f b - (0.40 * s + 0.30 * d + 0.15 * f + 0.15 * b)\<bar> < 1 / 10 ^ 9"
proof -
  let ?t1 = "fmul s (rnd 0.40)" and ?t2 = "fmul d (rnd 0.30)"
  let ?t3 = "fmul f (rnd 0.15)" and ?t4 = "fmul b (rnd 0.15)"
  have e1: "\<bar>?t1 - s * 0.40\<bar> \<le> 1 / 35184372088832" by (rule fmul_weight_err [OF s]) simp_all
  have e2: "\<bar>?t2 - d * 0.30\<bar> \<le> 1 / 35184372088832" by (rule fmul_weight_err [OF d]) simp_all
  have e3: "\<bar>?t3 - f * 0.15\<bar> \<le> 1 / 35184372088832" by (rule fmul_weight_err [OF f]) simp_all
  have e4: "\<bar>?t4 - b * 0.15\<bar> \<le> 1 / 35184372088832" by (rule fmul_weight_err [OF b]) simp_all
  have b1: "0 \<le> ?t1 \<and> ?t1 \<le> 40"
    by (rule fmul_weight_bounds [OF s _ top_040]) (rule weight_nonneg)
  have b2: "0 \<le> ?t2 \<and> ?t2 \<le> 30"
    by (rule fmul_weight_bounds [OF d _ top_030]) (rule weight_nonneg)
  have b3: "0 \<le> ?t3 \<and> ?t3 \<le> 15"
    by (rule fmul_weight_bounds [OF f _ top_015]) (rule weight_nonneg)
  have b4: "0 \<le> ?t4 \<and> ?t4 \<le> 15"
    by (rule fmul_weight_bounds [OF b _ top_015]) (rule weight_nonneg)
  have u1: "0 \<le> fadd ?t1 ?t2 \<and> fadd ?t1 ?t2 \<le> 70"
    by (rule fadd_bounds [OF b1 b2 rnd_sums(10)])
  have u2: "0 \<le> fadd (fadd ?t1 ?t2) ?t3 \<and> fadd (fadd ?t1 ?t2) ?t3 \<le> 85"
    by (rule fadd_bounds [OF u1 b3 rnd_sums(11)])
  have a1: "\<bar>fadd ?t1 ?t2 - (?t1 + ?t2)\<bar> \<le> 1 / 70368744177664"
    by (rule fadd_err) (use b1 b2 in simp_all)
  have a2: "\<bar>fadd (fadd ?t1 ?t2) ?t3 - (fadd ?t1 ?t2 + ?t3)\<bar> \<le> 1 / 70368744177664"
    by (rule fadd_err) (use u1 b3 in simp_all)
  have a3: "\<bar>fadd (fadd (fadd ?t1 ?t2) ?t3) ?t4 - (fadd (fadd ?t1 ?t2) ?t3 + ?t4)\<bar>
      \<le> 1 / 70368744177664"
    by (rule fadd_err) (use u2 b4 in simp_all)
  have s1: "\<bar>fadd ?t1 ?t2 - (s * 0.40 + d * 0.30)\<bar> \<le> 5 / 70368744177664"
    using e1 e2 a1 by linarith
  have s2: "\<bar>fadd (fadd ?t1 ?t2) ?t3 - (s * 0.40 + d * 0.30 + f * 0.15)\<bar>
      \<le> 8 / 70368744177664"
    using s1 e3 a2 by linarith
  have "\<bar>fadd (fadd (fadd ?t1 ?t2) ?t3) ?t4 - (s * 0.40 + d * 0.30 + f * 0.15 + b * 0.15)\<bar>
      \<le> 11 / 70368744177664"
    using s2 e4 a3 by linarith
  then show ?thesis unfolding composite_def by (simp add: mult.commute)
qed

text \<open>
  Claim C1. For every row of the scored table, the four sub-score columns hold the
  results of the four engines, the composite opportunity score is computed from them as
  \<^verbatim>\<open>s * 0.40 + d * 0.30 + f * 0.15 + b * 0.15\<close> in double precision, and it differs from the
  exact value of 0.40 times the Supply Gap sub-score plus 0.30 times the Demand Signal
  sub-score plus 0.15 times the Funding Tailwind sub-score plus 0.15 times the Build
  Feasibility sub-score by less than \<open>1 / 10 ^ 9\<close>.
\<close>

theorem composite_is_weighted_sum:
  assumes "i < length df"
  shows "score_supply_gap_col (build_composite_score df ! i) = score_supply_gap df ! i
     \<and> score_demand_signal_col (build_composite_score df ! i) = score_demand_signal df ! i
     \<and> score_funding_tailwind_col (build_composite_score df ! i)
         = score_funding_tailwind df ! i
     \<and> score_build_feasibility_col (build_composite_score df ! i)
         = score_build_feasibility df ! i
     \<and> opportunity_score (build_composite_score df ! i)
         = composite (score_supply_gap df ! i) (score_demand_signal df ! i)
             (score_funding_tailwind df ! i) (score_build_feasibility df ! i)
     \<and> \<bar>opportunity_score (build_composite_score df ! i)
         - (0.40 * score_supply_gap_col (build_composite_score df ! i)
            + 0.30 * score_demand_signal_col (build_composite_score df ! i)
            + 0.15 * score_funding_tailwind_col (build_composite_score df ! i)
            + 0.15 * score_build_feasibility_col (build_composite_score df ! i))\<bar>
       < 1 / 10 ^ 9"
proof -
  note e = composite_error [OF score_supply_gap_bounds [OF assms]
    score_demand_signal_bounds [OF assms] score_funding_tailwind_bounds [OF assms]
    score_build_feasibility_bounds [OF assms]]
  show ?thesis unfolding scored_row_fields [OF assms] using e by simp
qed

theorem composite_is_weighted_sum_witness:
  "\<bar>opportunity_score (build_composite_score example_df ! 0)
      - (0.40 * score_supply_gap_col (build_composite_score example_df ! 0)
         + 0.30 * score_demand_signal_col (build_composite_score example_df ! 0)
         + 0.15 * score_funding_tailwind_col (build_composite_score example_df ! 0)
         + 0.15 * score_build_feasibility_col (build_composite_score example_df ! 0))\<bar>
     < 1 / 10 ^ 9"
proof -
  have "0 < length example_df"
    by (simp add: example_df_def compute_derived_metrics_def example_tracts_def)
  from composite_is_weighted_sum [OF this] show ?thesis by blast
qed

section \<open>The income component of the Demand Signal\<close>











section \<open>The rank\<close>

lemma rank_descending_nth:
  assumes "i < length xs"
  shows "rank_descending xs ! i =
     of_nat (length (filter (\<lambda>y. y > xs ! i) xs))
     + (of_nat (length (filter (\<lambda>y. y = xs ! i) xs)) + 1) / 2"
  using assms by (simp add: rank_descending_def average_rank_def)

lemma rank_descending_ge_1:
  assumes "i < length xs"
  shows "1 \<le> rank_descending xs ! i"
proof -
  have "xs ! i \<in> set xs" using assms by simp
  from average_rank_ge_1 [OF this] show ?thesis
    using assms by (simp add: rank_descending_def)
qed

lemma astype_int_floor: "0 \<le> q \<Longrightarrow> astype_int q = \<lfloor>q\<rfloor>"
  by (simp add: astype_int_def)

lemma rank_descending_strict:
  fixes xs :: "rat list"
  assumes i: "i < length xs" and j: "j < length xs" and gt: "xs ! i > xs ! j"
  shows "astype_int (rank_descending xs ! i) < astype_int (rank_descending xs ! j)"
proof -
  have mi: "xs ! i \<in> set xs" and mj: "xs ! j \<in> set xs" using i j by simp_all
  have "average_rank (\<lambda>y x. y > x) xs (xs ! i) + 1 \<le> average_rank (\<lambda>y x. y > x) xs (xs ! j)"
    by (rule average_rank_strict [OF mi mj]) (use gt in auto)
  then have s: "rank_descending xs ! i + 1 \<le> rank_descending xs ! j"
    using i j by (simp add: rank_descending_def)
  have "\<lfloor>rank_descending xs ! i\<rfloor> + 1 = \<lfloor>rank_descending xs ! i + 1\<rfloor>" by simp
  also have "\<dots> \<le> \<lfloor>rank_descending xs ! j\<rfloor>" by (rule floor_mono [OF s])
  finally have "\<lfloor>rank_descending xs ! i\<rfloor> < \<lfloor>rank_descending xs ! j\<rfloor>" by simp
  moreover have "0 \<le> rank_descending xs ! i" "0 \<le> rank_descending xs ! j"
    using rank_descending_ge_1 [OF i] rank_descending_ge_1 [OF j] by simp_all
  ultimately show ?thesis by (simp add: astype_int_floor)
qed

lemma rank_descending_unique_top:
  fixes xs :: "rat list"
  assumes i: "i < length xs" and top: "\<forall>k<length xs. k \<noteq> i \<longrightarrow> xs ! k < xs ! i"
  shows "astype_int (rank_descending xs ! i) = 1"
proof -
  have g: "filter (\<lambda>y. y > xs ! i) xs = []"
  proof -
    have "\<not> y > xs ! i" if y: "y \<in> set xs" for y
    proof -
      obtain k where k: "k < length xs" "xs ! k = y" using y by (auto simp: in_set_conv_nth)
      show ?thesis using top k by (cases "k = i") auto
    qed
    then show ?thesis by (auto simp: filter_empty_conv)
  qed
  have e: "length (filter (\<lambda>y. y = xs ! i) xs) = 1"
  proof -
    have "filter (\<lambda>y. y = xs ! i) xs = map (\<lambda>k. xs ! k) (filter (\<lambda>k. xs ! k = xs ! i) [0..<length xs])"
      by (subst (1) map_nth [symmetric]) (simp only: filter_map o_def)
    moreover have "filter (\<lambda>k. xs ! k = xs ! i) [0..<length xs] = filter (\<lambda>k. k = i) [0..<length xs]"
      by (rule filter_cong) (use top in auto)
    moreover have "filter (\<lambda>k. k = i) [0..<length xs] = [i]"
      using i by (induction xs rule: rev_induct) (auto simp: less_Suc_eq)
    ultimately show ?thesis by simp
  qed
  show ?thesis unfolding rank_descending_nth [OF i] g e by (simp add: astype_int_def)
qed

text \<open>
  Claim C4, as the code has it. The rank column of the scored table is the average
  descending rank of the composite score, truncated to an integer: the rank of a score
  is the integer part of the number of scores above it plus half of one more than the
  number of scores equal to it. Equal scores have the same rank, a greater score has a
  smaller rank, and a score that is above every other score has rank 1.
\<close>

theorem opportunity_rank_truncated_average:
  fixes xs :: "rat list"
  assumes "i < length xs" and "j < length xs"
  shows "map opportunity_rank (build_composite_score df)
       = map astype_int (rank_descending (map opportunity_score (build_composite_score df)))
     \<and> astype_int (rank_descending xs ! i)
       = \<lfloor>rat_of_nat (length (filter (\<lambda>y. y > xs ! i) xs))
          + (rat_of_nat (length (filter (\<lambda>y. y = xs ! i) xs)) + 1) / 2\<rfloor>
     \<and> (xs ! i = xs ! j
          \<longrightarrow> astype_int (rank_descending xs ! i) = astype_int (rank_descending xs ! j))
     \<and> (xs ! i > xs ! j
          \<longrightarrow> astype_int (rank_descending xs ! i) < astype_int (rank_descending xs ! j))
     \<and> ((\<forall>k<length xs. k \<noteq> i \<longrightarrow> xs ! k < xs ! i)
          \<longrightarrow> astype_int (rank_descending xs ! i) = 1)"
proof (intro conjI impI)
  show "map opportunity_rank (build_composite_score df)
       = map astype_int (rank_descending (map opportunity_score (build_composite_score df)))"
    by (rule opportunity_rank_column)
  have "0 \<le> rank_descending xs ! i" using rank_descending_ge_1 [OF assms(1)] by simp
  then show "astype_int (rank_descending xs ! i)
       = \<lfloor>rat_of_nat (length (filter (\<lambda>y. y > xs ! i) xs))
          + (rat_of_nat (length (filter (\<lambda>y. y = xs ! i) xs)) + 1) / 2\<rfloor>"
    unfolding rank_descending_nth [OF assms(1)] by (rule astype_int_floor)
  show "astype_int (rank_descending xs ! i) = astype_int (rank_descending xs ! j)"
    if "xs ! i = xs ! j"
    using that by (simp add: rank_descending_nth assms)
  show "astype_int (rank_descending xs ! i) < astype_int (rank_descending xs ! j)"
    if "xs ! i > xs ! j"
    by (rule rank_descending_strict [OF assms]) (use that in simp)
  show "astype_int (rank_descending xs ! i) = 1"
    if "\<forall>k<length xs. k \<noteq> i \<longrightarrow> xs ! k < xs ! i"
    by (rule rank_descending_unique_top [OF assms(1) that])
qed


theorem opportunity_rank_truncated_average_witness:
  "astype_int (rank_descending [90, 80, 80, 70 :: rat] ! 0) = 1
   \<and> astype_int (rank_descending [90, 80, 80, 70 :: rat] ! 1)
       = astype_int (rank_descending [90, 80, 80, 70 :: rat] ! 2)
   \<and> astype_int (rank_descending [90, 80, 80, 70 :: rat] ! 0)
       < astype_int (rank_descending [90, 80, 80, 70 :: rat] ! 1)"
proof -
  let ?xs = "[90, 80, 80, 70 :: rat]"
  have len: "(0::nat) < length ?xs" "(1::nat) < length ?xs" "(2::nat) < length ?xs"
    by simp_all
  have top: "\<forall>k<length ?xs. k \<noteq> 0 \<longrightarrow> ?xs ! k < ?xs ! 0"
    by (auto simp: nth_Cons' )
  have eq: "?xs ! 1 = ?xs ! 2" by simp
  have gt: "?xs ! 0 > ?xs ! 1" by simp
  have a: "astype_int (rank_descending ?xs ! 0) = 1"
    using opportunity_rank_truncated_average [OF len(1) len(2), of example_df] top by blast
  have b: "astype_int (rank_descending ?xs ! 1) = astype_int (rank_descending ?xs ! 2)"
    using opportunity_rank_truncated_average [OF len(2) len(3), of example_df] eq by blast
  have c: "astype_int (rank_descending ?xs ! 0) < astype_int (rank_descending ?xs ! 1)"
    using opportunity_rank_truncated_average [OF len(1) len(2), of example_df] gt by blast
  from a b c show ?thesis by blast
qed

text \<open>
  The rank is not the dense rank. Three rows that are equal have the same composite
  score, and all three get rank 2, so no row has rank 1; and the scores 90, 80, 80, 70
  get the ranks 1, 2, 2, 4, where the dense rank of 70 is 3.
\<close>

lemma percentile_score_same_value:
  assumes "i < length xs" and "j < length xs" and "xs ! i = xs ! j"
  shows "percentile_score xs a ! i = percentile_score xs a ! j"
  using assms by (simp add: percentile_score_nth)

lemma equal_rows_equal_scores:
  assumes i: "i < length df" and j: "j < length df" and e: "df ! i = df ! j"
  shows "opportunity_score (build_composite_score df ! i)
       = opportunity_score (build_composite_score df ! j)"
proof -
  have p: "percentile_score (map f df) a ! i = percentile_score (map f df) a ! j" for f a
    by (rule percentile_score_same_value) (use i j e in simp_all)
  have fi: "income_filled df ! i = income_filled df ! j"
    using e by (simp add: income_filled_nth i j)
  have "percentile_score (income_filled df) True ! i = percentile_score (income_filled df) True ! j"
    by (rule percentile_score_same_value) (use i j fi in \<open>simp_all add: length_income_filled\<close>)
  then have inc: "income_score df ! i = income_score df ! j"
    using fi by (simp add: income_score_nth i j)
  have k: "rank_pct_keep (map f df) ! i = rank_pct_keep (map f df) ! j" for f
    using i j e by (simp add: rank_pct_keep_def Let_def)
  have "score_supply_gap df ! i = score_supply_gap df ! j"
    by (simp add: score_supply_gap_nth i j p)
  moreover have "score_demand_signal df ! i = score_demand_signal df ! j"
    by (simp add: score_demand_signal_nth i j p inc)
  moreover have "score_funding_tailwind df ! i = score_funding_tailwind df ! j"
    by (simp add: score_funding_tailwind_nth i j p)
  moreover have "score_build_feasibility df ! i = score_build_feasibility df ! j"
    by (simp add: score_build_feasibility_nth i j p k e)
  ultimately show ?thesis by (simp add: scored_row_fields(5) i j)
qed

lemma three_equal_rows_rank:
  "map opportunity_rank (build_composite_score [r, r, r]) = [2, 2, 2]"
proof -
  let ?df = "[r, r, r]"
  let ?c = "opportunity_score (build_composite_score ?df ! 0)"
  have l: "length (build_composite_score ?df) = 3" by (simp add: length_build_composite_score)
  have "opportunity_score (build_composite_score ?df ! 1) = ?c"
    by (rule equal_rows_equal_scores) simp_all
  moreover have "opportunity_score (build_composite_score ?df ! 2) = ?c"
    by (rule equal_rows_equal_scores) simp_all
  moreover have "map opportunity_score (build_composite_score ?df)
      = [opportunity_score (build_composite_score ?df ! 0),
         opportunity_score (build_composite_score ?df ! 1),
         opportunity_score (build_composite_score ?df ! 2)]"
    by (rule nth_equalityI) (auto simp: l less_Suc_eq numeral_3_eq_3 numeral_2_eq_2)
  ultimately have "map opportunity_score (build_composite_score ?df) = [?c, ?c, ?c]" by simp
  then show ?thesis
    unfolding opportunity_rank_column [of ?df]
    by (simp add: rank_descending_def average_rank_def astype_int_def)
qed

theorem rank_not_dense_counterexample:
  "map opportunity_rank
     (build_composite_score [example_df ! 0, example_df ! 0, example_df ! 0]) = [2, 2, 2]
   \<and> map astype_int (rank_descending [90, 80, 80, 70]) = [1, 2, 2, 4]"
  by (simp add: three_equal_rows_rank rank_descending_def average_rank_def astype_int_def
      floor_rat_divide_numeral)

section \<open>Divisions of the derived metrics\<close>

lemma is_count_not_inf: "is_count x \<Longrightarrow> \<not> is_inf x"
  by (cases x) (simp_all add: is_count_def is_inf_def)

lemma cadd_not_inf: "\<not> is_inf a \<Longrightarrow> \<not> is_inf b \<Longrightarrow> \<not> is_inf (cadd a b)"
  by (cases a; cases b) (simp_all add: is_inf_def)

lemma csub_not_inf: "\<not> is_inf a \<Longrightarrow> \<not> is_inf b \<Longrightarrow> \<not> is_inf (csub a b)"
  by (cases a; cases b) (simp_all add: is_inf_def csub_def)

lemma cdiv_not_inf:
  "\<not> is_inf a \<Longrightarrow> \<not> is_inf b \<Longrightarrow> cell_gt b 0 \<Longrightarrow> \<not> is_inf (cdiv a b)"
  by (cases a; cases b) (simp_all add: is_inf_def)

lemma pct_not_inf:
  "\<not> is_inf a \<Longrightarrow> \<not> is_inf b \<Longrightarrow> cell_gt b 0 \<Longrightarrow> \<not> is_inf (pct a b)"
  by (cases a; cases b) (simp_all add: is_inf_def pct_def)

lemma pct_guarded_not_inf:
  "\<not> is_inf a \<Longrightarrow> \<not> is_inf b \<Longrightarrow> \<not> is_inf (pct a (replace_cell 0 NaN b))"
  by (cases a; cases b) (simp_all add: is_inf_def pct_def replace_cell_def)

lemma pct_guarded_zero: "pct a (replace_cell 0 NaN (Num 0)) = NaN"
  by (cases a) (simp_all add: pct_def replace_cell_def)

lemma pct_guarded_nonzero: "b \<noteq> Num 0 \<Longrightarrow> pct a (replace_cell 0 NaN b) = pct a b"
  by (simp add: replace_cell_def)

lemma derived_row_fields:
  "pct_unserved (derived_row r) = pct (UnservedBSLs (fcc r)) (TotalBSLs (fcc r))"
  "pct_underserved (derived_row r) = pct (UnderservedBSLs (fcc r)) (TotalBSLs (fcc r))"
  "pct_unserved_underserved (derived_row r)
     = pct (cadd (UnservedBSLs (fcc r)) (UnderservedBSLs (fcc r))) (TotalBSLs (fcc r))"
  "pct_fiber_unserved (derived_row r) = pct (UnservedBSLsFiber (fcc r)) (TotalBSLs (fcc r))"
  "pct_no_fiber (derived_row r)
     = pct (csub (TotalBSLs (fcc r)) (ServedBSLsFiber (fcc r))) (TotalBSLs (fcc r))"
  "pct_copper_served (derived_row r) = pct (ServedBSLsCopper (fcc r)) (TotalBSLs (fcc r))"
  "pct_no_internet (derived_row r) = pct (hh_no_internet (acs r)) (hh_total (acs r))"
  "pct_cellular_only (derived_row r) = pct (hh_cellular_only (acs r)) (hh_total (acs r))"
  "pct_broadband (derived_row r) = pct (hh_broadband_any (acs r)) (hh_total (acs r))"
  "pct_cable_fiber_dsl (derived_row r) = pct (hh_cable_fiber_dsl (acs r)) (hh_total (acs r))"
  "pct_served (derived_row r) = pct (ServedBSLs (fcc r)) (TotalBSLs (fcc r))"
  "adoption_gap (derived_row r)
     = csub (pct (ServedBSLs (fcc r)) (TotalBSLs (fcc r)))
         (pct (hh_broadband_any (acs r)) (hh_total (acs r)))"
  "pct_bachelors_plus (derived_row r)
     = pct (cadd (cadd (cadd (edu_bachelors (acs r)) (edu_masters (acs r)))
                    (edu_professional (acs r))) (edu_doctorate (acs r)))
         (replace_cell 0 NaN (edu_total_25plus (acs r)))"
  "unemployment_rate (derived_row r)
     = pct (emp_unemployed (acs r)) (replace_cell 0 NaN (emp_civilian_labor (acs r)))"
  "pct_minority (derived_row r)
     = pct (csub (race_total (acs r)) (race_nh_white (acs r)))
         (replace_cell 0 NaN (race_total (acs r)))"
  "hh_per_bsl (derived_row r) = cdiv (hh_total (acs r)) (TotalBSLs (fcc r))"
  "pct_no_computer (derived_row r)
     = pct (comp_no_computer (acs r)) (replace_cell 0 NaN (comp_total_hh (acs r)))"
  by (simp_all add: derived_row_def Let_def tract.defs tract_m.defs)

text \<open>
  Claim C9. In a row that passes the retention filter and whose raw columns hold counts,
  the two unguarded denominators (total BSLs and total households) are not zero, and no
  derived metric is infinite. Each of the four guarded ratios (education, employment,
  race, computer ownership) is missing when its denominator is zero, and is the plain
  ratio times 100 otherwise. (A division of pandas raises nothing: the functions of the
  model are total.)
\<close>

theorem derived_metrics_guarded:
  assumes "retained r" and "raw_counts r"
  shows "TotalBSLs (fcc r) \<noteq> Num 0 \<and> hh_total (acs r) \<noteq> Num 0
     \<and> list_all (\<lambda>c. \<not> is_inf c) (derived_cells (derived_row r))
     \<and> pct_bachelors_plus (derived_row r) =
         (if edu_total_25plus (acs r) = Num 0 then NaN
          else pct (cadd (cadd (cadd (edu_bachelors (acs r)) (edu_masters (acs r)))
                            (edu_professional (acs r))) (edu_doctorate (acs r)))
                 (edu_total_25plus (acs r)))
     \<and> unemployment_rate (derived_row r) =
         (if emp_civilian_labor (acs r) = Num 0 then NaN
          else pct (emp_unemployed (acs r)) (emp_civilian_labor (acs r)))
     \<and> pct_minority (derived_row r) =
         (if race_total (acs r) = Num 0 then NaN
          else pct (csub (race_total (acs r)) (race_nh_white (acs r))) (race_total (acs r)))
     \<and> pct_no_computer (derived_row r) =
         (if comp_total_hh (acs r) = Num 0 then NaN
          else pct (comp_no_computer (acs r)) (comp_total_hh (acs r)))"
proof -
  have g: "cell_gt (TotalBSLs (fcc r)) 0" "cell_gt (hh_total (acs r)) 0"
    using assms(1) by (simp_all add: retained_def)
  have nz: "TotalBSLs (fcc r) \<noteq> Num 0 \<and> hh_total (acs r) \<noteq> Num 0" using g by auto
  have c: "list_all is_count
           [TotalBSLs (fcc r), UnservedBSLs (fcc r), UnderservedBSLs (fcc r), ServedBSLs (fcc r),
            UnservedBSLsFiber (fcc r), ServedBSLsFiber (fcc r), ServedBSLsCopper (fcc r),
            hh_total (acs r), hh_no_internet (acs r), hh_cellular_only (acs r),
            hh_broadband_any (acs r), hh_cable_fiber_dsl (acs r), edu_bachelors (acs r),
            edu_masters (acs r), edu_professional (acs r), edu_doctorate (acs r),
            edu_total_25plus (acs r), emp_unemployed (acs r), emp_civilian_labor (acs r),
            race_total (acs r), race_nh_white (acs r), comp_no_computer (acs r),
            comp_total_hh (acs r)]"
    using assms(2) by (simp add: raw_counts_def Let_def)
  have fin: "list_all (\<lambda>c. \<not> is_inf c) (derived_cells (derived_row r))"
    using c g unfolding derived_cells_def derived_row_fields
    by (simp add: is_count_not_inf cadd_not_inf csub_not_inf cdiv_not_inf pct_not_inf
        pct_guarded_not_inf)
  have z: "pct_bachelors_plus (derived_row r) =
         (if edu_total_25plus (acs r) = Num 0 then NaN
          else pct (cadd (cadd (cadd (edu_bachelors (acs r)) (edu_masters (acs r)))
                            (edu_professional (acs r))) (edu_doctorate (acs r)))
                 (edu_total_25plus (acs r)))"
    "unemployment_rate (derived_row r) =
         (if emp_civilian_labor (acs r) = Num 0 then NaN
          else pct (emp_unemployed (acs r)) (emp_civilian_labor (acs r)))"
    "pct_minority (derived_row r) =
         (if race_total (acs r) = Num 0 then NaN
          else pct (csub (race_total (acs r)) (race_nh_white (acs r))) (race_total (acs r)))"
    "pct_no_computer (derived_row r) =
         (if comp_total_hh (acs r) = Num 0 then NaN
          else pct (comp_no_computer (acs r)) (comp_total_hh (acs r)))"
    unfolding derived_row_fields by (simp_all add: pct_guarded_zero pct_guarded_nonzero)
  from nz fin z show ?thesis by blast
qed

lemma example_zero_denominators_ok:
  "retained example_zero_denominators" "raw_counts example_zero_denominators"
  by (simp_all add: retained_def raw_counts_def example_zero_denominators_def example_acs_def
      example_fcc_def is_count_def Let_def)

theorem derived_metrics_guarded_witness:
  "list_all (\<lambda>c. \<not> is_inf c) (derived_cells (derived_row example_zero_denominators))
   \<and> pct_bachelors_plus (derived_row example_zero_denominators) = NaN
   \<and> unemployment_rate (derived_row example_zero_denominators) = NaN
   \<and> pct_minority (derived_row example_zero_denominators) = NaN
   \<and> pct_no_computer (derived_row example_zero_denominators) = NaN"
proof -
  have z: "edu_total_25plus (acs example_zero_denominators) = Num 0"
    "emp_civilian_labor (acs example_zero_denominators) = Num 0"
    "race_total (acs example_zero_denominators) = Num 0"
    "comp_total_hh (acs example_zero_denominators) = Num 0"
    by (simp_all add: example_zero_denominators_def)
  from derived_metrics_guarded [OF example_zero_denominators_ok] show ?thesis
    unfolding z by simp
qed

text \<open>
  The retention filter is needed: in a row with no BSL and three unserved BSLs the
  unserved percentage is infinite.
\<close>

lemma zero_bsl_row_infinite:
  "pct (Num 3) (Num 0) = PosInf"
  by (simp add: pct_def)

section \<open>The county rollup\<close>

lemma group_key_NaN: "rucc_code r = NaN \<Longrightarrow> group_key r = None"
  by (simp add: group_key_def split: option.splits)

lemma group_key_Some:
  "group_key r = Some (s, c, g, k) \<longleftrightarrow>
     StateAbbr (fcc r) = Some s \<and> CountyName (fcc r) = Some c \<and> county_geoid r = g
     \<and> rucc_code r = k \<and> rucc_code r \<noteq> NaN"
  by (auto simp: group_key_def split: option.splits)

lemma map_filter_group_key:
  "List.map_filter group_key (filter (\<lambda>r. rucc_code r \<noteq> NaN) df) = List.map_filter group_key df"
  by (induction df) (auto simp: List.map_filter_simps group_key_NaN split: option.splits)

lemma members_without_NaN:
  "filter (\<lambda>r. group_key r = Some key) (filter (\<lambda>r. rucc_code r \<noteq> NaN) df)
     = filter (\<lambda>r. group_key r = Some key) df"
proof -
  have "(rucc_code r \<noteq> NaN \<and> group_key r = Some key) = (group_key r = Some key)" for r
    using group_key_NaN [of r] by auto
  then show ?thesis by simp
qed

lemma agg_group_without_NaN:
  "agg_group (filter (\<lambda>r. rucc_code r \<noteq> NaN) df) = agg_group df"
proof
  fix key
  show "agg_group (filter (\<lambda>r. rucc_code r \<noteq> NaN) df) key = agg_group df key"
    unfolding agg_group_def members_without_NaN ..
qed

lemma tract_count_agg_group:
  "tract_count (agg_group df key) = length (filter (\<lambda>r. group_key r = Some key) df)"
  by (cases key) (simp add: agg_group_def Let_def)

lemma county_scores_without_NaN:
  "county_scores (filter (\<lambda>r. rucc_code r \<noteq> NaN) df) = county_scores df"
  by (simp add: county_scores_def group_keys_def map_filter_group_key agg_group_without_NaN)

lemma county_row_of_key:
  assumes "g \<in> set (county_scores df)"
  shows "\<exists>r\<in>set df. group_key r
       = Some (county_StateAbbr g, county_CountyName g, county_county_geoid g,
           county_rucc_code g)
     \<and> g = agg_group df (county_StateAbbr g, county_CountyName g, county_county_geoid g,
           county_rucc_code g)"
proof -
  from assms obtain key where k: "key \<in> set (List.map_filter group_key df)"
    and g: "g = agg_group df key"
    by (auto simp: county_scores_def group_keys_def)
  obtain s c geo code where key: "key = (s, c, geo, code)" by (cases key) auto
  have sel: "county_StateAbbr g = s" "county_CountyName g = c" "county_county_geoid g = geo"
    "county_rucc_code g = code"
    unfolding g key by (simp_all add: agg_group_def Let_def)
  from k obtain r where "r \<in> set df" "group_key r = Some key"
    by (auto simp: List.map_filter_def)
  then show ?thesis using g unfolding sel key by blast
qed

lemma county_row_tract_count:
  assumes "g \<in> set (county_scores df)"
  shows "tract_count g =
     length (filter (\<lambda>r. StateAbbr (fcc r) = Some (county_StateAbbr g)
        \<and> CountyName (fcc r) = Some (county_CountyName g)
        \<and> county_geoid r = county_county_geoid g
        \<and> rucc_code r = county_rucc_code g \<and> rucc_code r \<noteq> NaN) df)"
proof -
  from county_row_of_key [OF assms]
  have "g = agg_group df (county_StateAbbr g, county_CountyName g, county_county_geoid g,
           county_rucc_code g)" by blast
  then have "tract_count g = length (filter (\<lambda>r. group_key r
       = Some (county_StateAbbr g, county_CountyName g, county_county_geoid g,
           county_rucc_code g)) df)"
    using tract_count_agg_group [of df "(county_StateAbbr g, county_CountyName g,
      county_county_geoid g, county_rucc_code g)"] by simp
  then show ?thesis by (simp only: group_key_Some)
qed

lemma county_row_rucc:
  assumes "g \<in> set (county_scores df)"
  shows "county_rucc_code g \<noteq> NaN"
  using county_row_of_key [OF assms] by (auto simp: group_key_Some)

lemma main_result:
  "main acs_t fcc_t rucc dir =
     (let df = build_composite_score (compute_derived_metrics (load_and_merge acs_t fcc_t rucc))
      in ((df, county_scores df),
          dir\<lparr>tract_scores_csv := Some df, county_scores_csv := Some (county_scores df)\<rparr>))"
  by (simp add: main_def Let_def)

text \<open>
  Claim C10. \<^verbatim>\<open>main\<close> writes the whole scored table to the tract file and the rollup to
  the county file. The rollup is the rollup of the scored table without the tracts whose
  rurality code is missing: such a tract, although it is a row of the tract file, has no
  group key, no row of the county table has a missing rurality code, and the tract count
  of a county row counts only the tracts of that county with a rurality code.
\<close>

theorem null_rucc_tracts_not_in_rollup:
  assumes "main acs_t fcc_t rucc dir = ((df, cs), dir')"
  shows "tract_scores_csv dir' = Some df \<and> county_scores_csv dir' = Some cs
     \<and> cs = county_scores (filter (\<lambda>r. rucc_code r \<noteq> NaN) df)
     \<and> (\<forall>r\<in>set df. rucc_code r = NaN \<longrightarrow> group_key r = None)
     \<and> (\<forall>g\<in>set cs. county_rucc_code g \<noteq> NaN
          \<and> tract_count g =
              length (filter (\<lambda>r. StateAbbr (fcc r) = Some (county_StateAbbr g)
                 \<and> CountyName (fcc r) = Some (county_CountyName g)
                 \<and> county_geoid r = county_county_geoid g
                 \<and> rucc_code r = county_rucc_code g \<and> rucc_code r \<noteq> NaN) df))"
proof -
  from assms have cs: "cs = county_scores df"
    and d: "dir' = dir\<lparr>tract_scores_csv := Some df, county_scores_csv := Some cs\<rparr>"
    by (auto simp: main_result Let_def)
  show ?thesis
    unfolding d using county_row_rucc [of _ df] county_row_tract_count [of _ df]
    by (simp add: cs county_scores_without_NaN group_key_NaN)
qed

lemma tract_fields_derived_row:
  "rucc_code (derived_row t) = rucc_code t" "fcc (derived_row t) = fcc t"
  "county_geoid (derived_row t) = county_geoid t"
  by (simp_all add: derived_row_def Let_def tract.defs tract_m.defs)

lemma example_df_rows:
  "length example_df = 2"
  "example_df ! 0 = derived_row (example_tracts ! 0)"
  "example_df ! Suc 0 = derived_row (example_tracts ! Suc 0)"
  by (simp_all add: example_df_def compute_derived_metrics_def example_tracts_def)

lemma example_scored_rows:
  "build_composite_score example_df
     = [build_composite_score example_df ! 0, build_composite_score example_df ! Suc 0]"
  by (rule nth_equalityI)
    (auto simp: length_build_composite_score example_df_rows(1) less_Suc_eq numeral_2_eq_2)

lemma example_group_keys:
  "group_key (build_composite_score example_df ! 0)
     = Some (''VA'', ''Accomack'', ''51001'', Num 6)"
  "group_key (build_composite_score example_df ! Suc 0) = None"
  "rucc_code (build_composite_score example_df ! Suc 0) = NaN"
proof -
  have l: "0 < length example_df" "Suc 0 < length example_df"
    by (simp_all add: example_df_rows(1))
  show "group_key (build_composite_score example_df ! 0)
     = Some (''VA'', ''Accomack'', ''51001'', Num 6)"
    by (simp add: group_key_def scored_row_inputs [OF l(1)] example_df_rows(2)
        tract_fields_derived_row example_tracts_def example_fcc_def)
  show r: "rucc_code (build_composite_score example_df ! Suc 0) = NaN"
    by (simp add: scored_row_inputs [OF l(2)] example_df_rows(3) tract_fields_derived_row
        example_tracts_def)
  show "group_key (build_composite_score example_df ! Suc 0) = None"
    by (rule group_key_NaN [OF r])
qed

lemma example_tract_counts:
  "map tract_count (county_scores (build_composite_score example_df)) = [1]"
proof -
  let ?df = "build_composite_score example_df"
  let ?key = "(''VA'', ''Accomack'', ''51001'', Num 6)"
  have k: "List.map_filter group_key ?df = [?key]"
    by (subst example_scored_rows) (simp add: List.map_filter_simps example_group_keys)
  have m: "filter (\<lambda>r. group_key r = Some ?key) ?df = [?df ! 0]"
    by (subst example_scored_rows) (simp add: example_group_keys)
  have "county_scores ?df = [agg_group ?df ?key]"
    by (simp add: county_scores_def group_keys_def k)
  then show ?thesis by (simp add: tract_count_agg_group m)
qed

lemma main_example:
  "main example_acs_table example_fcc_table example_rucc empty_dir =
     ((build_composite_score example_df, county_scores (build_composite_score example_df)),
      \<lparr>tract_scores_csv = Some (build_composite_score example_df),
       county_scores_csv = Some (county_scores (build_composite_score example_df))\<rparr>)"
  by (simp add: main_result load_and_merge_example example_df_def empty_dir_def Let_def)

theorem null_rucc_tracts_not_in_rollup_witness:
  "fst (main example_acs_table example_fcc_table example_rucc empty_dir)
     = (build_composite_score example_df, county_scores (build_composite_score example_df))
   \<and> length (build_composite_score example_df) = 2
   \<and> rucc_code (build_composite_score example_df ! 1) = NaN
   \<and> group_key (build_composite_score example_df ! 1) = None
   \<and> tract_scores_csv (snd (main example_acs_table example_fcc_table example_rucc empty_dir))
       = Some (build_composite_score example_df)
   \<and> map tract_count (county_scores (build_composite_score example_df)) = [1]
   \<and> map county_rucc_code (county_scores (build_composite_score example_df)) \<noteq> [NaN]"
proof -
  let ?df = "build_composite_score example_df"
  have l: "length ?df = 2" by (simp add: length_build_composite_score example_df_rows(1))
  then have mem: "?df ! 1 \<in> set ?df" by simp
  note t = null_rucc_tracts_not_in_rollup [OF main_example]
  have r: "rucc_code (?df ! 1) = NaN" using example_group_keys(3) by simp
  have g: "group_key (?df ! 1) = None" using t mem r by blast
  have w: "tract_scores_csv
      \<lparr>tract_scores_csv = Some ?df, county_scores_csv = Some (county_scores ?df)\<rparr> = Some ?df"
    using t by blast
  have "\<forall>g\<in>set (county_scores ?df). county_rucc_code g \<noteq> NaN" using t by blast
  then have n: "map county_rucc_code (county_scores ?df) \<noteq> [NaN]"
    using example_tract_counts by (cases "county_scores ?df") auto
  show ?thesis
    unfolding main_example using l g w n r example_tract_counts by simp
qed

section \<open>Empty inputs\<close>

lemma inner_merge_empty: "acs_t = [] \<or> fcc_t = [] \<Longrightarrow> inner_merge acs_t fcc_t = []"
  by (auto simp: inner_merge_def)

lemma build_composite_score_empty: "build_composite_score [] = []"
  by (simp add: build_composite_score_def Let_def)

lemma county_scores_empty: "county_scores [] = []"
  by (simp add: county_scores_def group_keys_def List.map_filter_simps)

lemma main_empty_join:
  assumes "inner_merge acs_t fcc_t = []"
  shows "main acs_t fcc_t rucc dir =
     (([], []), dir\<lparr>tract_scores_csv := Some [], county_scores_csv := Some []\<rparr>)"
proof -
  have "load_and_merge acs_t fcc_t rucc = []"
    by (simp add: load_and_merge_def Let_def assms left_merge_rucc_def)
  then show ?thesis
    by (simp add: main_result compute_derived_metrics_def build_composite_score_empty
        county_scores_empty Let_def)
qed

text \<open>
  Claim C7, as the code has it. The source checks the number of rows nowhere and raises
  nothing itself, and pandas merges, ranks, cuts and groups an empty table without
  raising. So when one of the two primary tables has no row, or their inner join on GEOID
  has no row, \<^verbatim>\<open>main\<close> does not halt: it scores the empty table and writes both files,
  each holding a table without rows.
\<close>

theorem empty_input_writes_empty_tables:
  assumes "acs_t = [] \<or> fcc_t = [] \<or> inner_merge acs_t fcc_t = []"
  shows "main acs_t fcc_t rucc dir =
     (([], []), dir\<lparr>tract_scores_csv := Some [], county_scores_csv := Some []\<rparr>)"
proof -
  have "inner_merge acs_t fcc_t = []" using assms inner_merge_empty by blast
  then show ?thesis by (rule main_empty_join)
qed

lemma inner_merge_disjoint_example:
  "inner_merge [example_acs ''51001090100'' (Num 25000)] [example_fcc ''51999000100''] = []"
  by (simp add: inner_merge_def example_acs_sel example_fcc_sel)

theorem empty_input_writes_empty_tables_witness:
  "main [example_acs ''51001090100'' (Num 25000)] [example_fcc ''51999000100''] example_rucc
     empty_dir
   = (([], []), \<lparr>tract_scores_csv = Some [], county_scores_csv = Some []\<rparr>)"
proof -
  have "[example_acs ''51001090100'' (Num 25000)] = []
      \<or> [example_fcc ''51999000100''] = []
      \<or> inner_merge [example_acs ''51001090100'' (Num 25000)] [example_fcc ''51999000100'']
          = []"
    using inner_merge_disjoint_example by simp
  from empty_input_writes_empty_tables [OF this, of example_rucc empty_dir]
  show ?thesis by (simp add: empty_dir_def)
qed

text \<open>
  The claim as stated fails: with one ACS tract and one FCC tract of different GEOID the
  join is empty, and \<^verbatim>\<open>main\<close> returns normally with both files written; the same holds
  when the three tables are empty.
\<close>

theorem empty_join_persisted_counterexample:
  "tract_scores_csv (snd (main [example_acs ''51001090100'' (Num 25000)]
       [example_fcc ''51999000100''] example_rucc empty_dir)) = Some []
   \<and> county_scores_csv (snd (main [example_acs ''51001090100'' (Num 25000)]
       [example_fcc ''51999000100''] example_rucc empty_dir)) = Some []
   \<and> snd (main [example_acs ''51001090100'' (Num 25000)]
       [example_fcc ''51999000100''] example_rucc empty_dir) \<noteq> empty_dir
   \<and> snd (main [] [] [] empty_dir) \<noteq> empty_dir"
  by (simp add: main_empty_join [OF inner_merge_disjoint_example]
      main_empty_join [OF inner_merge_empty] empty_dir_def)

end
